theory Spec2Isabelle
  imports Complex_Main "HOL-Library.AList" "HOL-Library.Sublist" "HOL-Library.Log_Nat"
begin

section \<open>Data model\<close>

text \<open>
  The program (\<^verbatim>\<open>stock_block.py\<close>) works on pandas data frames. A frame is modelled
  column-wise, as pandas stores it: the list of row labels (\<open>index\<close>) and the list of
  labelled columns, each column holding one cell per row. The order of the columns and
  of the rows is the frame's order. A cell is a number, the missing value \<open>NaN\<close>
  (pandas' marker for a missing number, \<^verbatim>\<open>None\<close> included), or a string.

  A number is a rational, and the numbers of the program are doubles (IEEE binary64):
  where the source computes with them (the division of line 32, the rounding of line
  33), the exact result of each operation is rounded to the nearest double, \<open>fl\<close>
  below. Comparisons, absolute values, minima and maxima are exact on doubles. The sum
  of the summary and the sum of a tile group are taken exactly; the infinities are not
  modelled. Strings are byte lists (UTF-8), so the Chinese column labels of the source
  are written byte by byte.

  Column look-up by label takes the first column carrying the label; the frames of the
  provider carry pairwise different labels.
\<close>

datatype cell = Num rat | NaN | Str string

datatype py_error = ProviderError | KeyError | TypeError | ValueError

record frame =
  index :: "nat list"
  data :: "(string \<times> cell list) list"

text \<open>\<^verbatim>\<open>pd.DataFrame()\<close>: no rows, no columns.\<close>

definition DataFrame_empty :: frame where
  "DataFrame_empty = \<lparr>index = [], data = []\<rparr>"

text \<open>\<^verbatim>\<open>df.empty\<close>: true when either axis has length zero.\<close>

definition df_empty :: "frame \<Rightarrow> bool" where
  "df_empty df = (index df = [] \<or> data df = [])"

text \<open>\<^verbatim>\<open>df[c]\<close> raises \<^verbatim>\<open>KeyError\<close> when no column is labelled \<open>c\<close>.\<close>

definition getitem :: "frame \<Rightarrow> string \<Rightarrow> py_error + cell list" where
  "getitem df c = (case map_of (data df) c of None \<Rightarrow> Inl KeyError | Some xs \<Rightarrow> Inr xs)"

text \<open>\<^verbatim>\<open>df[c] = xs\<close> overwrites the column labelled \<open>c\<close> in place, or appends a new
  last column.\<close>

definition setitem :: "string \<Rightarrow> cell list \<Rightarrow> frame \<Rightarrow> frame" where
  "setitem c xs df = df\<lparr>data := AList.update c xs (data df)\<rparr>"

text \<open>\<^verbatim>\<open>df.rename(columns={old: new})\<close>: relabels, and ignores a label that is absent.\<close>

definition rename_columns :: "string \<Rightarrow> string \<Rightarrow> frame \<Rightarrow> frame" where
  "rename_columns old new df =
     df\<lparr>data := map (\<lambda>(n, xs). (if n = old then new else n, xs)) (data df)\<rparr>"

subsection \<open>Column labels of the source\<close>

text \<open>The labels, as UTF-8 bytes: \<open>name_col\<close> is the provider's sector name column,
  \<open>sector_col\<close> its canonical label, \<open>net_col\<close> the raw net inflow, \<open>inflow_col\<close> the net
  inflow in units of 10^8, \<open>pct_col\<close> the price change, \<open>strength_col\<close> the flow strength
  and \<open>ratio_col\<close> the net inflow ratio.\<close>

definition name_col :: string where
  "name_col = [CHR 0xE5, CHR 0x90, CHR 0x8D, CHR 0xE7, CHR 0xA7, CHR 0xB0]"

definition sector_col :: string where
  "sector_col = [CHR 0xE6, CHR 0x9D, CHR 0xBF, CHR 0xE5, CHR 0x9D, CHR 0x97,
                 CHR 0xE5, CHR 0x90, CHR 0x8D, CHR 0xE7, CHR 0xA7, CHR 0xB0]"

definition net_col :: string where
  "net_col = [CHR 0xE4, CHR 0xB8, CHR 0xBB, CHR 0xE5, CHR 0x8A, CHR 0x9B, CHR 0xE5, CHR 0x87,
              CHR 0x80, CHR 0xE6, CHR 0xB5, CHR 0x81, CHR 0xE5, CHR 0x85, CHR 0xA5, CHR 0x2D,
              CHR 0xE5, CHR 0x87, CHR 0x80, CHR 0xE9, CHR 0xA2, CHR 0x9D]"

definition inflow_col :: string where
  "inflow_col = [CHR 0xE8, CHR 0xB5, CHR 0x84, CHR 0xE9, CHR 0x87, CHR 0x91, CHR 0xE5, CHR 0x87,
                 CHR 0x80, CHR 0xE6, CHR 0xB5, CHR 0x81, CHR 0xE5, CHR 0x85, CHR 0xA5, CHR 0x28,
                 CHR 0xE4, CHR 0xBA, CHR 0xBF, CHR 0x29]"

definition pct_col :: string where
  "pct_col = [CHR 0xE6, CHR 0xB6, CHR 0xA8, CHR 0xE8, CHR 0xB7, CHR 0x8C, CHR 0xE5, CHR 0xB9,
              CHR 0x85]"

definition strength_col :: string where
  "strength_col = [CHR 0xE6, CHR 0xB5, CHR 0x81, CHR 0xE5, CHR 0x90, CHR 0x91, CHR 0xE5, CHR 0xBC,
                   CHR 0xBA, CHR 0xE5, CHR 0xBA, CHR 0xA6]"

definition ratio_col :: string where
  "ratio_col = [CHR 0xE4, CHR 0xB8, CHR 0xBB, CHR 0xE5, CHR 0x8A, CHR 0x9B, CHR 0xE5, CHR 0x87,
                CHR 0x80, CHR 0xE6, CHR 0xB5, CHR 0x81, CHR 0xE5, CHR 0x85, CHR 0xA5, CHR 0x2D,
                CHR 0xE5, CHR 0x87, CHR 0x80, CHR 0xE5, CHR 0x8D, CHR 0xA0, CHR 0xE6, CHR 0xAF,
                CHR 0x94]"

text \<open>The period indicators of the sidebar's radio control: today, 5 days, 10 days.\<close>

definition today :: string where
  "today = [CHR 0xE4, CHR 0xBB, CHR 0x8A, CHR 0xE6, CHR 0x97, CHR 0xA5]"

definition days5 :: string where
  "days5 = [CHR 0x35, CHR 0xE6, CHR 0x97, CHR 0xA5]"

definition days10 :: string where
  "days10 = [CHR 0x31, CHR 0x30, CHR 0xE6, CHR 0x97, CHR 0xA5]"

section \<open>Library operations used by the source\<close>

subsection \<open>Python's \<^verbatim>\<open>str.replace\<close>\<close>

text \<open>
  \<^verbatim>\<open>s.replace(old, new)\<close> replaces the occurrences of \<open>old\<close> from left to right, without
  overlap. The scan carries the number of characters of a matched occurrence still to
  skip. An empty \<open>old\<close> matches between any two characters.
\<close>

fun replace_scan :: "string \<Rightarrow> string \<Rightarrow> nat \<Rightarrow> string \<Rightarrow> string" where
  "replace_scan old new k [] = []"
| "replace_scan old new (Suc k) (c # s) = replace_scan old new k s"
| "replace_scan old new 0 (c # s) =
     (if take (length old) (c # s) = old then new @ replace_scan old new (length old - 1) s
      else c # replace_scan old new 0 s)"

definition str_replace :: "string \<Rightarrow> string \<Rightarrow> string \<Rightarrow> string" where
  "str_replace old new s =
     (if old = [] then new @ concat (map (\<lambda>c. c # new) s) else replace_scan old new 0 s)"

subsection \<open>Double arithmetic\<close>

text \<open>
  \<open>ilog2 x\<close> is, for a positive \<open>x\<close>, the exponent \<open>e\<close> with \<open>2^e \<le> x < 2^(e+1)\<close>,
  found from the bit lengths of numerator and denominator. \<open>fl x\<close> is the double nearest
  to \<open>x\<close>: the significand \<open>|x| / 2^(e - 52)\<close>, which lies between \<open>2^52\<close> and \<open>2^53\<close>, is
  rounded to the nearest integer, a tie going to the even one (the rounding mode of
  the hardware). Overflow and subnormal numbers are not modelled: the values of lines 32
  and 33 stay far from both.
\<close>

text \<open>\<^verbatim>\<open>numpy.rint\<close>: the nearest integer, a tie going to the even neighbour.\<close>

definition rint :: "rat \<Rightarrow> int" where
  "rint y = (let f = \<lfloor>y\<rfloor>; d = y - of_int f
             in if d < 1/2 then f else if 1/2 < d then f + 1 else if even f then f else f + 1)"

definition ilog2 :: "rat \<Rightarrow> int" where
  "ilog2 x = (case quotient_of x of (p, q) \<Rightarrow>
                let c = bitlen p - bitlen q in if 2 powi c \<le> x then c else c - 1)"

definition fl :: "rat \<Rightarrow> rat" where
  "fl x = (if x = 0 then 0
           else let e = ilog2 \<bar>x\<bar> - 52
                in sgn x * of_int (rint (\<bar>x\<bar> / 2 powi e)) * 2 powi e)"

subsection \<open>Element-wise arithmetic on a column\<close>

text \<open>An operation on a column stops at the first cell that raises.\<close>

fun traverse :: "('a \<Rightarrow> py_error + 'b) \<Rightarrow> 'a list \<Rightarrow> py_error + 'b list" where
  "traverse f [] = Inr []"
| "traverse f (x # xs) =
     (case f x of Inl e \<Rightarrow> Inl e
      | Inr y \<Rightarrow> (case traverse f xs of Inl e \<Rightarrow> Inl e | Inr ys \<Rightarrow> Inr (y # ys)))"

text \<open>\<^verbatim>\<open>series / d\<close>: a number is divided (the quotient is a double), a missing value
  stays missing, and a string raises \<^verbatim>\<open>TypeError\<close> (Python has no division of a string by
  a number).\<close>

fun cell_truediv :: "rat \<Rightarrow> cell \<Rightarrow> py_error + cell" where
  "cell_truediv d (Num x) = Inr (Num (fl (x / d)))"
| "cell_truediv d NaN = Inr NaN"
| "cell_truediv d (Str s) = Inl TypeError"

text \<open>\<^verbatim>\<open>series.round(n)\<close> is numpy's rounding of doubles: the product with \<open>10^n\<close> (a
  double), \<open>rint\<close> of it, and the quotient by \<open>10^n\<close> (a double).\<close>

definition np_round :: "nat \<Rightarrow> rat \<Rightarrow> rat" where
  "np_round n x = fl (of_int (rint (fl (x * 10 ^ n))) / 10 ^ n)"

fun cell_round :: "nat \<Rightarrow> cell \<Rightarrow> py_error + cell" where
  "cell_round n (Num x) = Inr (Num (np_round n x))"
| "cell_round n NaN = Inr NaN"
| "cell_round n (Str s) = Inl TypeError"

fun cell_abs :: "cell \<Rightarrow> py_error + cell" where
  "cell_abs (Num x) = Inr (Num \<bar>x\<bar>)"
| "cell_abs NaN = Inr NaN"
| "cell_abs (Str s) = Inl TypeError"

text \<open>\<^verbatim>\<open>pd.to_numeric(series, errors='coerce')\<close>: a string that parses becomes its number,
  any other string becomes missing; nothing raises. The parser of the library is a
  parameter, \<open>parse\<close>.\<close>

fun cell_to_numeric :: "(string \<Rightarrow> rat option) \<Rightarrow> cell \<Rightarrow> cell" where
  "cell_to_numeric parse (Num x) = Num x"
| "cell_to_numeric parse NaN = NaN"
| "cell_to_numeric parse (Str s) = (case parse s of Some x \<Rightarrow> Num x | None \<Rightarrow> NaN)"

subsection \<open>\<^verbatim>\<open>dropna\<close>\<close>

text \<open>\<open>select m xs\<close> keeps the entries of \<open>xs\<close> at the positions where the mask \<open>m\<close> is
  true.\<close>

definition select :: "bool list \<Rightarrow> 'a list \<Rightarrow> 'a list" where
  "select m xs = map snd (filter fst (zip m xs))"

definition notna :: "cell \<Rightarrow> bool" where
  "notna c = (c \<noteq> NaN)"

text \<open>\<^verbatim>\<open>df.dropna(subset=[c])\<close> keeps the rows whose cell in column \<open>c\<close> is not missing,
  in their order and with their labels.\<close>

definition dropna :: "string \<Rightarrow> frame \<Rightarrow> py_error + frame" where
  "dropna c df =
     (case getitem df c of Inl e \<Rightarrow> Inl e
      | Inr col \<Rightarrow>
          let m = map notna col
          in Inr \<lparr>index = select m (index df),
                  data = map (\<lambda>(n, xs). (n, select m xs)) (data df)\<rparr>)"

section \<open>\<^verbatim>\<open>process_data\<close>\<close>

text \<open>\<^verbatim>\<open>raw.columns = raw.columns.str.replace(indicator, '', regex=False)\<close>: the
  indicator is removed from every column label, wherever it occurs in the label.\<close>

definition strip_indicator :: "string \<Rightarrow> frame \<Rightarrow> frame" where
  "strip_indicator indicator raw =
     raw\<lparr>data := map (\<lambda>(n, xs). (str_replace indicator [] n, xs)) (data raw)\<rparr>"

text \<open>
  The body of the \<^verbatim>\<open>try\<close> block, statement by statement. The provider
  (\<^verbatim>\<open>ak.stock_sector_fund_flow_rank\<close>) is the parameter \<open>fetch\<close>: it raises or returns a
  frame. The five-minute cache of the decorator is not modelled.
\<close>

definition process_data_body ::
  "(string \<Rightarrow> py_error + frame) \<Rightarrow> (string \<Rightarrow> rat option) \<Rightarrow> string \<Rightarrow> py_error + frame" where
  "process_data_body fetch parse indicator =
     (case fetch indicator of Inl e \<Rightarrow> Inl e
      | Inr raw0 \<Rightarrow>
          let raw = strip_indicator indicator raw0;
              df = rename_columns name_col sector_col raw
          in case getitem df net_col of Inl e \<Rightarrow> Inl e
             | Inr net \<Rightarrow>
          case traverse (cell_truediv 100000000) net of Inl e \<Rightarrow> Inl e
             | Inr q \<Rightarrow>
          let df1 = setitem inflow_col q df
          in case getitem df1 inflow_col of Inl e \<Rightarrow> Inl e
             | Inr s1 \<Rightarrow>
          case traverse (cell_round 2) s1 of Inl e \<Rightarrow> Inl e
             | Inr r \<Rightarrow>
          let df2 = setitem inflow_col r df1
          in case getitem df2 pct_col of Inl e \<Rightarrow> Inl e
             | Inr p \<Rightarrow>
          let df3 = setitem pct_col (map (cell_to_numeric parse) p) df2
          in case getitem df3 inflow_col of Inl e \<Rightarrow> Inl e
             | Inr s3 \<Rightarrow>
          case traverse cell_abs s3 of Inl e \<Rightarrow> Inl e
             | Inr a \<Rightarrow>
          let df4 = setitem strength_col a df3
          in dropna inflow_col df4)"

text \<open>
  The whole function: \<^verbatim>\<open>except Exception\<close> reports the error (\<^verbatim>\<open>st.error\<close>, the first
  component) and returns the empty frame.
\<close>

definition process_data ::
  "(string \<Rightarrow> py_error + frame) \<Rightarrow> (string \<Rightarrow> rat option) \<Rightarrow> string \<Rightarrow> py_error option \<times> frame" where
  "process_data fetch parse indicator =
     (case process_data_body fetch parse indicator of
        Inl e \<Rightarrow> (Some e, DataFrame_empty)
      | Inr df \<Rightarrow> (None, df))"

subsection \<open>A provider table and a parser for examples\<close>

text \<open>\<open>provider_frame ind rs\<close> is a table as the provider delivers it for the indicator
  \<open>ind\<close>: rows labelled \<open>0, 1, ...\<close>, and the columns name, price change, net inflow and
  net inflow ratio, the last three with the indicator as a prefix of their label. A row
  of \<open>rs\<close> is (name, net inflow, price change, ratio).\<close>

definition provider_frame :: "string \<Rightarrow> (cell \<times> cell \<times> cell \<times> cell) list \<Rightarrow> frame" where
  "provider_frame ind rs =
     \<lparr>index = [0 ..< length rs],
      data = [(name_col, map (\<lambda>(n, x, p, r). n) rs),
              (ind @ pct_col, map (\<lambda>(n, x, p, r). p) rs),
              (ind @ net_col, map (\<lambda>(n, x, p, r). x) rs),
              (ind @ ratio_col, map (\<lambda>(n, x, p, r). r) rs)]\<rparr>"

text \<open>A parser of plain decimal literals (an optional minus sign, digits, an optional
  fraction) to the nearest double, standing in for the library's parser in the
  examples.\<close>

fun digit_of :: "char \<Rightarrow> nat option" where
  "digit_of c =
     (let k = (of_char c :: nat) in if 48 \<le> k \<and> k \<le> 57 then Some (k - 48) else None)"

fun digits_value :: "nat \<Rightarrow> string \<Rightarrow> nat option" where
  "digits_value acc [] = Some acc"
| "digits_value acc (c # s) =
     (case digit_of c of None \<Rightarrow> None | Some d \<Rightarrow> digits_value (10 * acc + d) s)"

definition unsigned_decimal :: "string \<Rightarrow> rat option" where
  "unsigned_decimal s =
     (let ip = takeWhile (\<lambda>c. c \<noteq> CHR ''.'') s; fp = drop (length ip + 1) s
      in if ip = [] then None
         else case (digits_value 0 ip, digits_value 0 fp) of
                (Some i, Some f) \<Rightarrow> Some (fl (of_nat i + of_nat f / 10 ^ length fp))
              | _ \<Rightarrow> None)"

definition plain_decimal :: "string \<Rightarrow> rat option" where
  "plain_decimal s =
     (case s of
        [] \<Rightarrow> None
      | c # t \<Rightarrow> if c = CHR ''-'' then map_option uminus (unsigned_decimal t)
                 else unsigned_decimal s)"

section \<open>\<^verbatim>\<open>generate_heatmap\<close>\<close>

subsection \<open>Reductions of a column\<close>

text \<open>
  pandas' reductions (\<^verbatim>\<open>min\<close>, \<^verbatim>\<open>max\<close>, \<^verbatim>\<open>sum\<close>, \<^verbatim>\<open>idxmax\<close>, a comparison with a
  number) skip missing values. \<open>numbers\<close> lists the values a reduction sees. A string
  cell cannot be compared with a number: \<^verbatim>\<open>TypeError\<close>. (The columns reduced here are
  written by \<open>process_data\<close>, which never leaves a string in them.)
  A reduction of no value at all is \<^verbatim>\<open>nan\<close>, here \<open>None\<close>.
\<close>

fun numbers :: "cell list \<Rightarrow> py_error + rat list" where
  "numbers [] = Inr []"
| "numbers (Num x # cs) = (case numbers cs of Inl e \<Rightarrow> Inl e | Inr xs \<Rightarrow> Inr (x # xs))"
| "numbers (NaN # cs) = numbers cs"
| "numbers (Str s # cs) = Inl TypeError"

definition series_min :: "rat list \<Rightarrow> rat option" where
  "series_min xs = (if xs = [] then None else Some (Min (set xs)))"

definition series_max :: "rat list \<Rightarrow> rat option" where
  "series_max xs = (if xs = [] then None else Some (Max (set xs)))"

text \<open>Python's \<^verbatim>\<open>abs\<close>, \<^verbatim>\<open>max\<close> of two and unary minus on floats, \<open>None\<close> being
  \<^verbatim>\<open>nan\<close>. \<^verbatim>\<open>max(a, b)\<close> is \<open>b\<close> when \<open>b > a\<close> holds and \<open>a\<close> otherwise.\<close>

definition py_abs :: "rat option \<Rightarrow> rat option" where
  "py_abs a = map_option abs a"

fun py_max :: "rat option \<Rightarrow> rat option \<Rightarrow> rat option" where
  "py_max (Some x) (Some y) = (if x < y then Some y else Some x)"
| "py_max a b = a"

definition py_neg :: "rat option \<Rightarrow> rat option" where
  "py_neg a = map_option uminus a"

subsection \<open>The colour scale\<close>

text \<open>\<^verbatim>\<open>COLOR_SCALE\<close>: five stops, each a position in \<open>[0, 1]\<close> and a colour.\<close>

definition COLOR_SCALE :: "(rat \<times> string) list" where
  "COLOR_SCALE = [(0, ''#00ff00''), (45/100, ''#dfffdf''), (1/2, ''#ffffff''),
                  (55/100, ''#ffe5e5''), (1, ''#ff0000'')]"

subsection \<open>The figure\<close>

datatype branch_values = Total | Remainder

text \<open>
  What \<^verbatim>\<open>px.treemap\<close> is given and what it builds: the arguments of the call, and the
  tiles. With \<^verbatim>\<open>path=[c]\<close> the library groups the rows by their cell in column \<open>c\<close> and
  gives each group one leaf tile, whose value is the sum of the group's cells in the
  \<^verbatim>\<open>values\<close> column (a missing value adds nothing; a string there is refused with
  \<^verbatim>\<open>ValueError\<close>). The styling calls (\<^verbatim>\<open>update_traces\<close>, \<^verbatim>\<open>update_layout\<close>) set text
  templates, margins and the colour bar and change none of this.
\<close>

record figure =
  path :: "string list"
  values_col :: string
  color_col :: string
  tiles :: "(cell \<times> rat) list"
  color_continuous_scale :: "(rat \<times> string) list"
  range_color :: "rat option \<times> rat option"
  color_continuous_midpoint :: rat
  branchvalues :: branch_values
  hover_data :: "string list"
  height :: nat

fun tile_value :: "cell \<Rightarrow> py_error + rat" where
  "tile_value (Num x) = Inr x"
| "tile_value NaN = Inr 0"
| "tile_value (Str s) = Inl ValueError"

fun add_leaf :: "cell \<Rightarrow> rat \<Rightarrow> (cell \<times> rat) list \<Rightarrow> (cell \<times> rat) list" where
  "add_leaf l v [] = [(l, v)]"
| "add_leaf l v ((l', v') # ts) =
     (if l' = l then (l', v' + v) # ts else (l', v') # add_leaf l v ts)"

definition px_leaves :: "(cell \<times> rat) list \<Rightarrow> (cell \<times> rat) list" where
  "px_leaves rs = foldl (\<lambda>ts (l, v). add_leaf l v ts) [] rs"

text \<open>A column named in the call must exist: the library raises \<^verbatim>\<open>ValueError\<close>
  otherwise.\<close>

definition px_column :: "frame \<Rightarrow> string \<Rightarrow> py_error + cell list" where
  "px_column df c = (case map_of (data df) c of None \<Rightarrow> Inl ValueError | Some xs \<Rightarrow> Inr xs)"

text \<open>The arguments are evaluated before the call: the two bounds of \<^verbatim>\<open>range_color\<close>
  read the inflow column (\<^verbatim>\<open>KeyError\<close> when it is absent).\<close>

definition generate_heatmap :: "frame \<Rightarrow> py_error + figure" where
  "generate_heatmap df =
     (case getitem df inflow_col of Inl e \<Rightarrow> Inl e
      | Inr s \<Rightarrow>
      case numbers s of Inl e \<Rightarrow> Inl e
      | Inr xs \<Rightarrow>
      let bound = py_max (py_abs (series_min xs)) (py_abs (series_max xs))
      in case px_column df sector_col of Inl e \<Rightarrow> Inl e
         | Inr names \<Rightarrow>
      case px_column df strength_col of Inl e \<Rightarrow> Inl e
         | Inr strengths \<Rightarrow>
      case traverse tile_value strengths of Inl e \<Rightarrow> Inl e
         | Inr vs \<Rightarrow>
      case px_column df pct_col of Inl e \<Rightarrow> Inl e
         | Inr pcts \<Rightarrow>
      case px_column df ratio_col of Inl e \<Rightarrow> Inl e
         | Inr ratios \<Rightarrow>
      Inr \<lparr>path = [sector_col],
           values_col = strength_col,
           color_col = inflow_col,
           tiles = px_leaves (zip names vs),
           color_continuous_scale = COLOR_SCALE,
           range_color = (py_neg bound, bound),
           color_continuous_midpoint = 0,
           branchvalues = Total,
           hover_data = [pct_col, inflow_col, ratio_col],
           height = 1000\<rparr>)"

subsection \<open>The colour axis of the plotting library\<close>

text \<open>
  The source maps no value to a colour itself: the plotting library does, from the
  arguments \<^verbatim>\<open>color_continuous_scale\<close> and \<^verbatim>\<open>range_color\<close> of the call. The library is
  not part of the repository; the four definitions of this subsection model its colour
  axis. The domain of the axis is \<^verbatim>\<open>range_color\<close>; the library widens a domain whose two
  ends coincide by one half to each side. The value's position in the domain,
  \<open>(v - lo) / (hi - lo)\<close> cut to \<open>[0, 1]\<close>, is looked up in the colour scale: a position
  on a stop has the stop's colour, a position between two stops a blend of theirs,
  linear in each channel.
\<close>

datatype shade = Flat string | Blend string string rat

definition axis_domain :: "figure \<Rightarrow> (rat \<times> rat) option" where
  "axis_domain fig =
     (case range_color fig of
        (Some lo, Some hi) \<Rightarrow> Some (if lo = hi then (lo - 1/2, hi + 1/2) else (lo, hi))
      | _ \<Rightarrow> None)"

definition axis_position :: "rat \<times> rat \<Rightarrow> rat \<Rightarrow> rat" where
  "axis_position d v = (case d of (lo, hi) \<Rightarrow> max 0 (min 1 ((v - lo) / (hi - lo))))"

fun scale_lookup :: "(rat \<times> string) list \<Rightarrow> rat \<Rightarrow> shade option" where
  "scale_lookup [] t = None"
| "scale_lookup [(t0, c0)] t = Some (Flat c0)"
| "scale_lookup ((t0, c0) # (t1, c1) # rest) t =
     (if t \<le> t0 then Some (Flat c0)
      else if t < t1 then Some (Blend c0 c1 ((t - t0) / (t1 - t0)))
      else scale_lookup ((t1, c1) # rest) t)"

definition color_of :: "figure \<Rightarrow> rat \<Rightarrow> shade option" where
  "color_of fig v =
     (case axis_domain fig of
        None \<Rightarrow> None
      | Some d \<Rightarrow> scale_lookup (color_continuous_scale fig) (axis_position d v))"

section \<open>\<^verbatim>\<open>main_display\<close>\<close>

text \<open>
  What the page shows, in order. The caption's time stamp is not modelled. A metric has
  a value and a line below it (the delta): the strongest inflow and the largest outflow
  show the value (\<open>None\<close> prints as \<^verbatim>\<open>nan\<close>) and the sector's name cell, the third
  metric shows the two counts and the total.
\<close>

datatype ui_event =
    Title
  | Caption
  | PlotlyChart figure
  | MetricInflow "rat option" cell
  | MetricOutflow "rat option" cell
  | MetricRatio nat nat rat
  | Warning

text \<open>The format \<^verbatim>\<open>:.2f\<close> prints the nearest number with two decimals, a tie going
  to the even last digit.\<close>

definition format_2f :: "rat \<Rightarrow> rat" where
  "format_2f x = of_int (rint (x * 100)) / 100"

text \<open>\<^verbatim>\<open>series.idxmax()\<close> and \<^verbatim>\<open>series.idxmin()\<close>: the label of the first row holding the
  extreme value; \<^verbatim>\<open>ValueError\<close> when there is no value.\<close>

definition first_label :: "nat list \<Rightarrow> cell list \<Rightarrow> rat \<Rightarrow> py_error + nat" where
  "first_label idx cs m =
     (case find (\<lambda>(i, c). c = Num m) (zip idx cs) of
        None \<Rightarrow> Inl ValueError
      | Some (i, c) \<Rightarrow> Inr i)"

definition idxmax :: "nat list \<Rightarrow> cell list \<Rightarrow> py_error + nat" where
  "idxmax idx cs =
     (case numbers cs of Inl e \<Rightarrow> Inl e
      | Inr xs \<Rightarrow> (case series_max xs of None \<Rightarrow> Inl ValueError | Some m \<Rightarrow> first_label idx cs m))"

definition idxmin :: "nat list \<Rightarrow> cell list \<Rightarrow> py_error + nat" where
  "idxmin idx cs =
     (case numbers cs of Inl e \<Rightarrow> Inl e
      | Inr xs \<Rightarrow> (case series_min xs of None \<Rightarrow> Inl ValueError | Some m \<Rightarrow> first_label idx cs m))"

text \<open>\<^verbatim>\<open>df.loc[l, c]\<close>: the cell of column \<open>c\<close> in the row labelled \<open>l\<close> (row labels are
  pairwise different in the frames of the provider).\<close>

definition loc :: "frame \<Rightarrow> nat \<Rightarrow> string \<Rightarrow> py_error + cell" where
  "loc df l c =
     (case getitem df c of Inl e \<Rightarrow> Inl e
      | Inr xs \<Rightarrow>
          (case find (\<lambda>(i, x). i = l) (zip (index df) xs) of
             None \<Rightarrow> Inl KeyError
           | Some (i, x) \<Rightarrow> Inr x))"

text \<open>\<open>Inl\<close> is an exception that leaves \<open>main_display\<close>: nothing catches it. The
  sidebar controls, which deliver the indicator and the refresh interval, and the
  refresh loop, which sleeps and reruns the script, are not modelled.\<close>

definition main_display :: "frame \<Rightarrow> py_error + ui_event list" where
  "main_display df =
     (if \<not> df_empty df then
        case generate_heatmap df of Inl e \<Rightarrow> Inl e
        | Inr fig \<Rightarrow>
        case getitem df inflow_col of Inl e \<Rightarrow> Inl e
        | Inr s \<Rightarrow>
        case numbers s of Inl e \<Rightarrow> Inl e
        | Inr xs \<Rightarrow>
        case idxmax (index df) s of Inl e \<Rightarrow> Inl e
        | Inr imax \<Rightarrow>
        case loc df imax sector_col of Inl e \<Rightarrow> Inl e
        | Inr inflow_name \<Rightarrow>
        case idxmin (index df) s of Inl e \<Rightarrow> Inl e
        | Inr imin \<Rightarrow>
        case loc df imin sector_col of Inl e \<Rightarrow> Inl e
        | Inr outflow_name \<Rightarrow>
        Inr [Title, Caption, PlotlyChart fig,
             MetricInflow (map_option format_2f (series_max xs)) inflow_name,
             MetricOutflow (map_option format_2f (series_min xs)) outflow_name,
             MetricRatio (length (filter (\<lambda>x. 0 < x) xs)) (length (filter (\<lambda>x. x < 0) xs))
               (format_2f (sum_list xs))]
      else Inr [Title, Caption, Warning])"

section \<open>Notions used in the statements\<close>

text \<open>A string cell, and a function applied to the number of a cell (a missing value
  and a string are left as they are).\<close>

definition is_str :: "cell \<Rightarrow> bool" where
  "is_str c = (case c of Str s \<Rightarrow> True | _ \<Rightarrow> False)"

definition cell_map :: "(rat \<Rightarrow> rat) \<Rightarrow> cell \<Rightarrow> cell" where
  "cell_map f c = (case c of Num x \<Rightarrow> Num (f x) | _ \<Rightarrow> c)"

text \<open>The net inflow in units of 10^8, as lines 32 and 33 of the source compute it: the
  double quotient by 10^8, rounded by \<open>np_round\<close>.\<close>

definition inflow_yi :: "rat \<Rightarrow> rat" where
  "inflow_yi x = np_round 2 (fl (x / 100000000))"

text \<open>The provider's frame after the two relabelling steps (lines 27 and 30).\<close>

definition relabelled :: "string \<Rightarrow> frame \<Rightarrow> frame" where
  "relabelled ind raw = rename_columns name_col sector_col (strip_indicator ind raw)"

text \<open>The frame \<open>process_data\<close> returns when nothing raises, given the relabelled frame
  and its net inflow and price change columns: the three written columns, and of every
  column the rows whose net inflow is not missing.\<close>

definition normalized ::
  "(string \<Rightarrow> rat option) \<Rightarrow> frame \<Rightarrow> cell list \<Rightarrow> cell list \<Rightarrow> frame" where
  "normalized parse df net pct =
     (let r = map (cell_map inflow_yi) net; m = map notna net
      in \<lparr>index = select m (index df),
          data = map (\<lambda>(n, xs). (n, select m xs))
                   (AList.update strength_col (map (cell_map abs) r)
                     (AList.update pct_col (map (cell_to_numeric parse) pct)
                       (AList.update inflow_col r (data df))))\<rparr>)"

text \<open>A well-formed frame: pairwise different row labels, and every column as long as
  the index.\<close>

definition wf_frame :: "frame \<Rightarrow> bool" where
  "wf_frame df =
     (distinct (index df) \<and> list_all (\<lambda>(n, xs). length xs = length (index df)) (data df))"

text \<open>
  A snapshot (the normalized table of the specification): the frame has the columns the
  chart and the summary read, every net inflow cell is a number (\<open>xs\<close>, in row order),
  the flow strength is its absolute value, and \<open>names\<close> are the sector name cells.
\<close>

definition snapshot :: "frame \<Rightarrow> cell list \<Rightarrow> rat list \<Rightarrow> bool" where
  "snapshot df names xs =
     (getitem df sector_col = Inr names \<and>
      getitem df inflow_col = Inr (map Num xs) \<and>
      getitem df strength_col = Inr (map (\<lambda>x. Num \<bar>x\<bar>) xs) \<and>
      getitem df pct_col \<noteq> Inl KeyError \<and>
      getitem df ratio_col \<noteq> Inl KeyError \<and>
      length names = length xs \<and>
      length (index df) = length xs \<and>
      distinct (index df))"

text \<open>Rounding half up to \<open>n\<close> decimals, in the words of the specification (Python's
  \<^verbatim>\<open>ROUND_HALF_UP\<close>: a tie goes away from zero). The source does not use it.\<close>

definition round_half_up :: "nat \<Rightarrow> rat \<Rightarrow> rat" where
  "round_half_up n x = sgn x * of_int \<lfloor>\<bar>x\<bar> * 10 ^ n + 1/2\<rfloor> / 10 ^ n"

text \<open>The bound of the colour range as line 54 computes it from the numbers of the net
  inflow column.\<close>

definition color_bound :: "rat list \<Rightarrow> rat option" where
  "color_bound xs = py_max (py_abs (series_min xs)) (py_abs (series_max xs))"

section \<open>Example tables\<close>

text \<open>The table of the specification's example for dropped rows: sector A with the net
  inflow \<^verbatim>\<open>"bad"\<close>, sector B with the net inflow \<^verbatim>\<open>"100000000"\<close> and the price change
  \<^verbatim>\<open>"bad"\<close>; every field is a string.\<close>

definition strings_example :: frame where
  "strings_example =
     provider_frame today
       [(Str ''A'', Str ''bad'', Str ''3.2'', Num 1),
        (Str ''B'', Str ''100000000'', Str ''bad'', Num 2)]"

text \<open>The same two sectors with the net inflow as the provider types it: missing for A,
  the number 100000000 for B.\<close>

definition missing_example :: frame where
  "missing_example =
     provider_frame today
       [(Str ''A'', NaN, Str ''3.2'', Num 1),
        (Str ''B'', Num 100000000, Str ''bad'', Num 2)]"

text \<open>One sector whose net inflow, 12500000, lies exactly between 0.12 and 0.13 units
  of 10^8.\<close>

definition tie_example :: frame where
  "tie_example = provider_frame today [(Str ''A'', Num 12500000, Num 1, Num 1)]"

text \<open>A table of one sector with the net inflow \<open>x\<close>, for the indicator \<open>ind\<close>.\<close>

definition single_row :: "string \<Rightarrow> rat \<Rightarrow> frame" where
  "single_row ind x = provider_frame ind [(Str ''A'', Num x, Num 1, Num 1)]"

text \<open>Two sectors with no net inflow at all.\<close>

definition zero_example :: frame where
  "zero_example =
     provider_frame today
       [(Str ''A'', Num 0, Num 1, Num 0), (Str ''B'', Num 0, Num 2, Num 0)]"

text \<open>Four sectors with the net inflows -3, -1, 2 and 2 units of 10^8.\<close>

definition four_example :: frame where
  "four_example =
     provider_frame today
       [(Str ''A'', Num (-300000000), Num 1, Num 1),
        (Str ''B'', Num (-100000000), Num 1, Num 1),
        (Str ''C'', Num 200000000, Num 1, Num 1),
        (Str ''D'', Num 200000000, Num 1, Num 1)]"

text \<open>Two sectors, A before B, with the same net inflow of 5 units of 10^8.\<close>

definition tied_example :: frame where
  "tied_example =
     provider_frame today
       [(Str ''A'', Num 500000000, Num 1, Num 1),
        (Str ''B'', Num 500000000, Num 1, Num 1)]"

text \<open>A provider that returns the given table whatever the indicator.\<close>

definition returns :: "frame \<Rightarrow> string \<Rightarrow> py_error + frame" where
  "returns df indicator = Inr df"


text \<open>Two sectors, the first with a proper net inflow, the second with a string.\<close>

definition mixed_example :: frame where
  "mixed_example =
     provider_frame today
       [(Str ''A'', Num 100000000, Num 1, Num 1),
        (Str ''B'', Str ''bad'', Num 2, Num 2)]"

text \<open>A table without a net inflow column.\<close>

definition no_net_example :: frame where
  "no_net_example = \<lparr>index = [0], data = [(name_col, [Str ''A'']), (today @ pct_col, [Num 1])]\<rparr>"

text \<open>A provider that raises whatever the indicator.\<close>

definition unreachable :: "string \<Rightarrow> py_error + frame" where
  "unreachable indicator = Inl ProviderError"

section \<open>Properties of the library operations\<close>

lemma col_neq:
  "inflow_col \<noteq> pct_col" "pct_col \<noteq> inflow_col"
  "strength_col \<noteq> inflow_col" "inflow_col \<noteq> strength_col"
  "strength_col \<noteq> pct_col" "pct_col \<noteq> strength_col"
  "sector_col \<noteq> inflow_col" "sector_col \<noteq> pct_col" "sector_col \<noteq> strength_col"
  "ratio_col \<noteq> inflow_col" "ratio_col \<noteq> pct_col" "ratio_col \<noteq> strength_col"
  "net_col \<noteq> inflow_col" "net_col \<noteq> pct_col" "net_col \<noteq> strength_col"
  by (simp_all add: inflow_col_def pct_col_def strength_col_def sector_col_def ratio_col_def net_col_def)

lemma getitem_setitem_same: "getitem (setitem c xs df) c = Inr xs"
  by (simp add: getitem_def setitem_def update_conv')

lemma getitem_setitem_other: "d \<noteq> c \<Longrightarrow> getitem (setitem c xs df) d = getitem df d"
  by (simp add: getitem_def setitem_def update_conv')

lemma index_setitem: "index (setitem c xs df) = index df"
  by (simp add: setitem_def)

lemma data_setitem: "data (setitem c xs df) = AList.update c xs (data df)"
  by (simp add: setitem_def)

lemma traverse_truediv:
  "traverse (cell_truediv d) cs =
     (if list_ex is_str cs then Inl TypeError else Inr (map (cell_map (\<lambda>x. fl (x / d))) cs))"
proof (induction cs)
  case Nil
  show ?case by simp
next
  case (Cons c cs)
  then show ?case by (cases c) (simp_all add: is_str_def cell_map_def)
qed

lemma traverse_round:
  "traverse (cell_round n) cs =
     (if list_ex is_str cs then Inl TypeError else Inr (map (cell_map (np_round n)) cs))"
proof (induction cs)
  case Nil
  show ?case by simp
next
  case (Cons c cs)
  then show ?case by (cases c) (simp_all add: is_str_def cell_map_def)
qed

lemma traverse_abs:
  "traverse cell_abs cs =
     (if list_ex is_str cs then Inl TypeError else Inr (map (cell_map abs) cs))"
proof (induction cs)
  case Nil
  show ?case by simp
next
  case (Cons c cs)
  then show ?case by (cases c) (simp_all add: is_str_def cell_map_def)
qed

lemma is_str_cell_map: "is_str (cell_map f c) = is_str c"
  by (cases c) (simp_all add: is_str_def cell_map_def)

lemma list_ex_is_str_map: "list_ex is_str (map (cell_map f) cs) = list_ex is_str cs"
  by (induction cs) (simp_all add: is_str_cell_map)

lemma notna_cell_map: "notna (cell_map f c) = notna c"
  by (cases c) (simp_all add: notna_def cell_map_def)

lemma cell_map_comp: "cell_map f (cell_map g c) = cell_map (\<lambda>x. f (g x)) c"
  by (cases c) (simp_all add: cell_map_def)

lemma round_div_inflow:
  "cell_map (np_round 2) \<circ> cell_map (\<lambda>x. fl (x / 100000000)) = cell_map inflow_yi"
proof
  fix c
  show "(cell_map (np_round 2) \<circ> cell_map (\<lambda>x. fl (x / 100000000))) c = cell_map inflow_yi c"
    by (cases c) (simp_all add: cell_map_def inflow_yi_def)
qed

lemma notna_comp_cell_map: "notna \<circ> cell_map f = notna"
  by (rule ext) (simp add: notna_cell_map)

lemma process_data_body_eq:
  "process_data_body fetch parse ind =
     (case fetch ind of Inl e \<Rightarrow> Inl e
      | Inr raw \<Rightarrow>
         (case getitem (relabelled ind raw) net_col of Inl e \<Rightarrow> Inl e
          | Inr net \<Rightarrow>
             if list_ex is_str net then Inl TypeError
             else (case getitem (relabelled ind raw) pct_col of Inl e \<Rightarrow> Inl e
                   | Inr pct \<Rightarrow> Inr (normalized parse (relabelled ind raw) net pct))))"
proof (cases "fetch ind")
  case (Inl e)
  then show ?thesis by (simp add: process_data_body_def)
next
  case (Inr raw)
  define df where "df = relabelled ind raw"
  show ?thesis
  proof (cases "getitem df net_col")
    case (Inl e)
    with Inr show ?thesis
      by (simp add: process_data_body_def Let_def df_def relabelled_def)
  next
    case net: (Inr net)
    show ?thesis
    proof (cases "list_ex is_str net")
      case True
      with Inr net show ?thesis
        by (simp add: process_data_body_def Let_def df_def relabelled_def traverse_truediv)
    next
      case False
      show ?thesis
      proof (cases "getitem df pct_col")
        case (Inl e)
        with Inr net False show ?thesis
          by (simp add: process_data_body_def Let_def df_def[symmetric] relabelled_def[symmetric]
              traverse_truediv traverse_round getitem_setitem_same getitem_setitem_other col_neq
              list_ex_is_str_map)
      next
        case pct: (Inr pct)
        from Inr net False pct show ?thesis
          by (simp add: process_data_body_def Let_def df_def[symmetric] relabelled_def[symmetric]
              traverse_truediv traverse_round traverse_abs getitem_setitem_same
              getitem_setitem_other col_neq list_ex_is_str_map round_div_inflow
              dropna_def normalized_def data_setitem index_setitem notna_comp_cell_map)
      qed
    qed
  qed
qed


subsection \<open>Selecting rows\<close>

lemma select_Nil [simp]: "select [] xs = []" "select m [] = []"
  by (simp_all add: select_def)

lemma select_Cons [simp]:
  "select (b # m) (x # xs) = (if b then x # select m xs else select m xs)"
  by (simp add: select_def)

lemma select_map: "select m (map f xs) = map f (select m xs)"
proof (induction m arbitrary: xs)
  case Nil
  show ?case by simp
next
  case (Cons b m)
  show ?case by (cases xs) (simp_all add: Cons.IH)
qed

lemma select_zip: "select m (zip xs ys) = zip (select m xs) (select m ys)"
proof (induction m arbitrary: xs ys)
  case Nil
  show ?case by simp
next
  case (Cons b m)
  show ?case
  proof (cases xs)
    case Nil
    then show ?thesis by simp
  next
    case xs: (Cons x xs')
    show ?thesis by (cases ys) (simp_all add: xs Cons.IH)
  qed
qed

lemma select_filter: "select (map P xs) xs = filter P xs"
  by (induction xs) simp_all

lemma subseq_select: "subseq (select m xs) xs"
proof (induction m arbitrary: xs)
  case Nil
  show ?case by simp
next
  case (Cons b m)
  show ?case
  proof (cases xs)
    case Nil
    then show ?thesis by simp
  next
    case (Cons x xs')
    have "subseq (select m xs') xs'" by (rule Cons.IH)
    then show ?thesis unfolding Cons by (cases b) (simp_all add: list_emb_Cons)
  qed
qed

lemma select_nth_mem:
  "j < length m \<Longrightarrow> j < length xs \<Longrightarrow> m ! j \<Longrightarrow> xs ! j \<in> set (select m xs)"
proof (induction m arbitrary: xs j)
  case Nil
  then show ?case by simp
next
  case (Cons b m)
  then obtain x xs' where xs: "xs = x # xs'" by (cases xs) auto
  show ?case
  proof (cases j)
    case 0
    with Cons.prems xs show ?thesis by simp
  next
    case (Suc k)
    with Cons.prems xs have "xs' ! k \<in> set (select m xs')"
      by (intro Cons.IH) simp_all
    with Suc xs show ?thesis by simp
  qed
qed

lemma length_select_le: "length (select m xs) \<le> length xs"
  using subseq_select [of m xs] by (rule list_emb_length)

lemma length_select_eq:
  "length xs = length ys \<Longrightarrow> length (select m xs) = length (select m ys)"
proof (induction m arbitrary: xs ys)
  case Nil
  show ?case by simp
next
  case (Cons b m)
  show ?case
  proof (cases xs)
    case Nil
    with Cons.prems show ?thesis by simp
  next
    case xs: (Cons x xs')
    with Cons.prems obtain y ys' where ys: "ys = y # ys'" by (cases ys) auto
    with xs Cons.prems show ?thesis by (simp add: Cons.IH)
  qed
qed

lemma set_select: "set (select m xs) \<subseteq> set xs"
  by (auto simp: select_def dest: set_zip_rightD)

lemma distinct_select: "distinct xs \<Longrightarrow> distinct (select m xs)"
proof (induction m arbitrary: xs)
  case Nil
  show ?case by simp
next
  case (Cons b m)
  show ?case
  proof (cases xs)
    case Nil
    then show ?thesis by simp
  next
    case xs: (Cons x xs')
    with Cons.prems have "x \<notin> set xs'" "distinct xs'" by simp_all
    with set_select [of m xs'] Cons.IH [of xs'] show ?thesis
      unfolding xs by auto
  qed
qed

subsection \<open>The columns of the normalized frame\<close>

lemma index_normalized:
  "index (normalized parse df net pct) = select (map notna net) (index df)"
  by (simp add: normalized_def Let_def)

lemma map_of_select:
  "map_of (map (\<lambda>(n, xs). (n, select m xs)) al) c = map_option (select m) (map_of al c)"
  by (induction al) auto

lemma getitem_normalized_inflow:
  "getitem (normalized parse df net pct) inflow_col =
     Inr (select (map notna net) (map (cell_map inflow_yi) net))"
  by (simp add: getitem_def normalized_def Let_def map_of_select update_conv' col_neq)

lemma getitem_normalized_pct:
  "getitem (normalized parse df net pct) pct_col =
     Inr (select (map notna net) (map (cell_to_numeric parse) pct))"
  by (simp add: getitem_def normalized_def Let_def map_of_select update_conv' col_neq)

lemma getitem_normalized_strength:
  "getitem (normalized parse df net pct) strength_col =
     Inr (select (map notna net) (map (cell_map abs) (map (cell_map inflow_yi) net)))"
  by (simp add: getitem_def normalized_def Let_def map_of_select update_conv' col_neq)

lemma getitem_normalized_other:
  "c \<noteq> inflow_col \<Longrightarrow> c \<noteq> pct_col \<Longrightarrow> c \<noteq> strength_col \<Longrightarrow>
   getitem (normalized parse df net pct) c =
     (case getitem df c of Inl e \<Rightarrow> Inl e | Inr xs \<Rightarrow> Inr (select (map notna net) xs))"
  by (simp add: getitem_def normalized_def Let_def map_of_select update_conv'
      split: option.splits)

lemma getitem_error: "getitem df c = Inl e \<Longrightarrow> e = KeyError"
  by (simp add: getitem_def split: option.splits)

subsection \<open>The numbers of a column\<close>

lemma numbers_map_Num: "numbers (map Num xs) = Inr xs"
  by (induction xs) simp_all

lemma numbers_no_str:
  "\<not> list_ex is_str cs \<Longrightarrow> \<exists>xs. numbers cs = Inr xs"
proof (induction cs)
  case Nil
  show ?case by simp
next
  case (Cons c cs)
  then show ?case by (cases c) (auto simp: is_str_def)
qed

lemma select_notna_cell_map:
  "numbers cs = Inr xs \<Longrightarrow>
   select (map notna cs) (map (cell_map f) cs) = map (\<lambda>x. Num (f x)) xs"
proof (induction cs arbitrary: xs)
  case Nil
  then show ?case by simp
next
  case (Cons c cs)
  then show ?case
    by (cases c) (auto simp: notna_def cell_map_def split: sum.splits)
qed

lemma numbers_Inr_no_str: "numbers cs = Inr xs \<Longrightarrow> \<not> list_ex is_str cs"
proof (induction cs arbitrary: xs)
  case Nil
  show ?case by simp
next
  case (Cons c cs)
  then show ?case by (cases c) (auto simp: is_str_def split: sum.splits)
qed

section \<open>Properties of \<^verbatim>\<open>process_data\<close>\<close>

lemma process_data_eq:
  "process_data fetch parse ind =
     (case fetch ind of Inl e \<Rightarrow> (Some e, DataFrame_empty)
      | Inr raw \<Rightarrow>
         (case getitem (relabelled ind raw) net_col of Inl e \<Rightarrow> (Some e, DataFrame_empty)
          | Inr net \<Rightarrow>
             if list_ex is_str net then (Some TypeError, DataFrame_empty)
             else (case getitem (relabelled ind raw) pct_col of
                     Inl e \<Rightarrow> (Some e, DataFrame_empty)
                   | Inr pct \<Rightarrow> (None, normalized parse (relabelled ind raw) net pct))))"
  by (simp add: process_data_def process_data_body_eq split: sum.splits)

lemma index_relabelled: "index (relabelled ind raw) = index raw"
  by (simp add: relabelled_def rename_columns_def strip_indicator_def)

lemma process_data_ok:
  assumes "fetch ind = Inr raw"
    and "getitem (relabelled ind raw) net_col = Inr net"
    and "getitem (relabelled ind raw) pct_col = Inr pct"
    and "\<not> list_ex is_str net"
  shows "process_data fetch parse ind = (None, normalized parse (relabelled ind raw) net pct)"
  using assms by (simp add: process_data_eq)

lemma missing_example_net:
  "getitem (relabelled today missing_example) net_col = Inr [NaN, Num 100000000]"
  by code_simp

lemma missing_example_pct:
  "getitem (relabelled today missing_example) pct_col = Inr [Str ''3.2'', Str ''bad'']"
  by code_simp

lemma missing_example_name:
  "getitem (relabelled today missing_example) sector_col = Inr [Str ''A'', Str ''B'']"
  by code_simp




lemma mixed_example_net:
  "getitem (relabelled today mixed_example) net_col = Inr [Num 100000000, Str ''bad'']"
  by code_simp

lemma no_net_example_net:
  "getitem (relabelled today no_net_example) net_col = Inl KeyError"
  by code_simp

lemma main_display_empty: "df_empty df \<Longrightarrow> main_display df = Inr [Title, Caption, Warning]"
  by (simp add: main_display_def)

subsection \<open>Rounding\<close>

lemma rint_cases:
  fixes y :: rat
  shows "\<bar>of_int (rint y) - y\<bar> \<le> 1/2 \<and> (\<bar>of_int (rint y) - y\<bar> = 1/2 \<longrightarrow> even (rint y))"
proof -
  define f where "f = \<lfloor>y\<rfloor>"
  define d where "d = y - of_int f"
  have d: "0 \<le> d" "d < 1" unfolding d_def f_def by linarith+
  have y: "y = of_int f + d" by (simp add: d_def)
  have r: "rint y = (if d < 1/2 then f else if 1/2 < d then f + 1
                     else if even f then f else f + 1)"
    unfolding rint_def Let_def d_def f_def by (rule refl)
  consider "d < 1/2" | "1/2 < d" | "d = 1/2" "even f" | "d = 1/2" "odd f" by fastforce
  then show ?thesis
  proof cases
    case 1
    then have "rint y = f" by (simp only: r if_True)
    with 1 d show ?thesis by (simp add: y)
  next
    case 2
    then have "\<not> d < 1/2" by simp
    with 2 have "rint y = f + 1" by (simp only: r if_True if_False)
    with 2 d show ?thesis by (simp add: y)
  next
    case 3
    then have "\<not> d < 1/2" "\<not> 1/2 < d" by simp_all
    with 3 have "rint y = f" by (simp only: r if_True if_False)
    with 3 d show ?thesis by (simp add: y)
  next
    case 4
    then have "\<not> d < 1/2" "\<not> 1/2 < d" by simp_all
    with 4 have "rint y = f + 1" by (simp only: r if_True if_False)
    with 4 d show ?thesis by (simp add: y)
  qed
qed

lemma bitlen_bounds_rat:
  assumes "0 < p"
  shows "(2::rat) powi (bitlen p - 1) \<le> of_int p \<and> of_int p < (2::rat) powi (bitlen p)"
proof -
  from bitlen_bounds [OF assms]
  have b: "2 ^ nat (bitlen p - 1) \<le> p" "p < 2 ^ nat (bitlen p)" by simp_all
  from assms have pos: "1 \<le> bitlen p" by (auto simp: bitlen_alt_def)
  have "(of_int (2 ^ nat (bitlen p - 1)) :: rat) \<le> of_int p" using b(1) by (simp only: of_int_le_iff)
  then have lo: "(2::rat) ^ nat (bitlen p - 1) \<le> of_int p" by simp
  have "(of_int p :: rat) < of_int (2 ^ nat (bitlen p))" using b(2) by (simp only: of_int_less_iff)
  then have hi: "(of_int p :: rat) < 2 ^ nat (bitlen p)" by simp
  from pos lo hi show ?thesis by (simp add: power_int_nonneg_exp)
qed

lemma ilog2_bounds:
  assumes "0 < x"
  shows "2 powi (ilog2 x) \<le> x \<and> x < 2 * 2 powi (ilog2 x)"
proof -
  obtain p q where pq: "quotient_of x = (p, q)" by (cases "quotient_of x")
  then have q: "0 < q" and x: "x = of_int p / of_int q"
    by (rule quotient_of_denom_pos, rule quotient_of_div)
  from assms q have p: "0 < p" by (simp add: x zero_less_divide_iff)
  define c where "c = bitlen p - bitlen q"
  from bitlen_bounds_rat [OF p] have bp: "(2::rat) powi (bitlen p - 1) \<le> of_int p"
    "of_int p < (2::rat) powi (bitlen p)" by simp_all
  from bitlen_bounds_rat [OF q] have bq: "(2::rat) powi (bitlen q - 1) \<le> of_int q"
    "of_int q < (2::rat) powi (bitlen q)" by simp_all
  have qpos: "(0::rat) < of_int q" using q by simp
  have split_hi: "(2::rat) powi (bitlen p) = 2 * 2 powi c * 2 powi (bitlen q - 1)"
  proof -
    have "(2::rat) powi (bitlen p) = 2 powi (1 + c + (bitlen q - 1))" by (simp add: c_def)
    also have "\<dots> = 2 powi 1 * 2 powi c * 2 powi (bitlen q - 1)"
      by (simp only: power_int_add [of "2::rat"] numeral_neq_zero simp_thms)
    finally show ?thesis by simp
  qed
  have split_lo: "(2::rat) powi (bitlen p - 1) * 2 = 2 powi c * 2 powi (bitlen q)"
  proof -
    have "(2::rat) powi (bitlen p - 1) * 2 powi 1 = 2 powi (bitlen p - 1 + 1)"
      by (simp only: power_int_add [of "2::rat"] numeral_neq_zero simp_thms)
    also have "\<dots> = 2 powi (c + bitlen q)" by (simp add: c_def)
    also have "\<dots> = 2 powi c * 2 powi (bitlen q)"
      by (simp only: power_int_add [of "2::rat"] numeral_neq_zero simp_thms)
    finally show ?thesis by simp
  qed
  have cpos: "(0::rat) < 2 powi c" by simp
  have upper: "x < 2 * 2 powi c"
  proof -
    have "(of_int p :: rat) < 2 * 2 powi c * 2 powi (bitlen q - 1)" using bp(2) split_hi by simp
    also have "\<dots> \<le> 2 * 2 powi c * of_int q"
      using bq(1) cpos by (intro mult_left_mono) simp_all
    finally have "(of_int p :: rat) / of_int q < 2 * 2 powi c"
      using qpos by (simp add: pos_divide_less_eq)
    then show ?thesis by (simp only: x)
  qed
  have lower: "2 powi c \<le> 2 * x"
  proof -
    have "(2::rat) powi c * of_int q \<le> 2 powi c * 2 powi (bitlen q)"
      using bq(2) cpos by (intro mult_left_mono) simp_all
    also have "\<dots> = (2::rat) powi (bitlen p - 1) * 2" by (simp only: split_lo)
    also have "\<dots> \<le> of_int p * 2" using bp(1) by (intro mult_right_mono) simp_all
    finally have "(2::rat) powi c \<le> (of_int p * 2) / of_int q"
      using qpos by (simp add: pos_le_divide_eq)
    then show ?thesis by (simp add: x mult.commute)
  qed
  have i: "ilog2 x = (if 2 powi c \<le> x then c else c - 1)"
    by (simp add: ilog2_def pq c_def Let_def)
  show ?thesis
  proof (cases "2 powi c \<le> x")
    case True
    with i upper show ?thesis by simp
  next
    case False
    have m: "(2::rat) powi (c - 1) * 2 = 2 powi c"
      by (rule power_int_minus_mult) simp
    from False i have "ilog2 x = c - 1" by simp
    moreover from lower m have "2 powi (c - 1) \<le> x" by linarith
    moreover from False m have "x < 2 * 2 powi (c - 1)" by linarith
    ultimately show ?thesis by simp
  qed
qed

lemma fl_error: "\<bar>fl x - x\<bar> \<le> \<bar>x\<bar> / 2 ^ 53"
proof (cases "x = 0")
  case True
  then show ?thesis by (simp add: fl_def)
next
  case False
  define e where "e = ilog2 \<bar>x\<bar> - 52"
  define s where "s = \<bar>x\<bar> / 2 powi e"
  define m where "m = rint s"
  have epos: "(0::rat) < 2 powi e" by simp
  from False have ax: "0 < \<bar>x\<bar>" by simp
  have f: "fl x = sgn x * of_int m * 2 powi e"
    using False by (simp add: fl_def Let_def e_def[symmetric] s_def[symmetric] m_def)
  have xs: "x = sgn x * s * 2 powi e"
    by (simp add: s_def mult_sgn_abs)
  have "fl x - x = sgn x * (of_int m - s) * 2 powi e"
    by (subst f, subst (2) xs) (simp add: algebra_simps)
  then have "\<bar>fl x - x\<bar> = \<bar>sgn x\<bar> * \<bar>of_int m - s\<bar> * \<bar>2 powi e\<bar>"
    by (simp only: abs_mult)
  also have "\<dots> = \<bar>of_int m - s\<bar> * 2 powi e" using False by (simp add: abs_sgn_eq)
  also have "\<dots> \<le> 1/2 * 2 powi e"
    using rint_cases [of s] epos unfolding m_def by (intro mult_right_mono) simp_all
  finally have 1: "\<bar>fl x - x\<bar> \<le> 2 powi e / 2" by simp
  have "2 powi (ilog2 \<bar>x\<bar>) = (2::rat) powi (e + 52)" by (simp add: e_def)
  also have "\<dots> = 2 powi e * 2 powi 52"
    by (simp only: power_int_add [of "2::rat"] numeral_neq_zero simp_thms)
  finally have "2 powi e * 2 ^ 52 \<le> \<bar>x\<bar>"
    using ilog2_bounds [OF ax] by simp
  then have "2 powi e / 2 \<le> \<bar>x\<bar> / 2 ^ 53" by simp
  with 1 show ?thesis by linarith
qed

lemma inflow_yi_accuracy:
  "\<exists>k. inflow_yi x = fl (of_int k / 100) \<and>
       \<bar>of_int k / 100 - x / 100000000\<bar> \<le> 1/200 + \<bar>x\<bar> / 10 ^ 23"
proof -
  define y where "y = x / 100000000"
  define a where "a = fl y"
  define b where "b = fl (a * 100)"
  define k where "k = rint b"
  have r: "inflow_yi x = fl (of_int k / 100)"
    by (simp add: inflow_yi_def np_round_def k_def b_def a_def y_def)
  have ea: "\<bar>a - y\<bar> \<le> \<bar>y\<bar> / 2 ^ 53" unfolding a_def by (rule fl_error)
  have eb: "\<bar>b - a * 100\<bar> \<le> \<bar>a * 100\<bar> / 2 ^ 53" unfolding b_def by (rule fl_error)
  have ek: "\<bar>of_int k - b\<bar> \<le> 1/2" using rint_cases [of b] by (simp add: k_def)
  have aa: "\<bar>a\<bar> \<le> 2 * \<bar>y\<bar>"
  proof -
    have "\<bar>y\<bar> / 2 ^ 53 \<le> \<bar>y\<bar>" by (simp add: divide_le_eq)
    with ea show ?thesis by linarith
  qed
  have eb': "\<bar>b - a * 100\<bar> \<le> 200 * \<bar>y\<bar> / 2 ^ 53"
  proof -
    have "\<bar>a * 100\<bar> = \<bar>a\<bar> * 100" by (simp add: abs_mult)
    with aa have "\<bar>a * 100\<bar> \<le> 200 * \<bar>y\<bar>" by linarith
    then have "\<bar>a * 100\<bar> / 2 ^ 53 \<le> 200 * \<bar>y\<bar> / 2 ^ 53" by (rule divide_right_mono) simp
    with eb show ?thesis by linarith
  qed
  have "\<bar>of_int k - y * 100\<bar> \<le> \<bar>of_int k - b\<bar> + \<bar>b - a * 100\<bar> + \<bar>a - y\<bar> * 100"
  proof -
    have "of_int k - y * 100 = (of_int k - b) + ((b - a * 100) + (a - y) * 100)"
      by (simp add: algebra_simps)
    then have "\<bar>of_int k - y * 100\<bar> = \<bar>(of_int k - b) + ((b - a * 100) + (a - y) * 100)\<bar>"
      by (simp only:)
    also have "\<dots> \<le> \<bar>of_int k - b\<bar> + \<bar>(b - a * 100) + (a - y) * 100\<bar>"
      by (rule abs_triangle_ineq)
    also have "\<dots> \<le> \<bar>of_int k - b\<bar> + (\<bar>b - a * 100\<bar> + \<bar>(a - y) * 100\<bar>)"
      by (intro add_left_mono abs_triangle_ineq)
    finally have t: "\<bar>of_int k - y * 100\<bar>
        \<le> \<bar>of_int k - b\<bar> + (\<bar>b - a * 100\<bar> + \<bar>(a - y) * 100\<bar>)" .
    have "\<bar>(a - y) * 100\<bar> = \<bar>a - y\<bar> * \<bar>100\<bar>" by (rule abs_mult)
    with t show ?thesis by simp
  qed
  with ek eb' ea have "\<bar>of_int k - y * 100\<bar> \<le> 1/2 + 200 * \<bar>y\<bar> / 2 ^ 53 + \<bar>y\<bar> / 2 ^ 53 * 100"
    by linarith
  then have t: "\<bar>of_int k - y * 100\<bar> \<le> 1/2 + 300 * \<bar>y\<bar> / 2 ^ 53" by simp
  have "of_int k / 100 - y = (of_int k - y * 100) / 100" by (simp add: field_simps)
  then have "\<bar>of_int k / 100 - y\<bar> = \<bar>(of_int k - y * 100) / 100\<bar>" by (simp only:)
  also have "\<dots> = \<bar>of_int k - y * 100\<bar> / \<bar>100\<bar>" by (rule abs_divide)
  also have "\<dots> \<le> (1/2 + 300 * \<bar>y\<bar> / 2 ^ 53) / \<bar>100\<bar>"
    using t by (rule divide_right_mono) simp
  also have "\<dots> = 1/200 + 3 * \<bar>y\<bar> / 2 ^ 53" by (simp add: field_simps)
  finally have u: "\<bar>of_int k / 100 - y\<bar> \<le> 1/200 + 3 * \<bar>y\<bar> / 2 ^ 53" .
  have "\<bar>y\<bar> = \<bar>x\<bar> / 100000000" by (simp add: y_def)
  then have "3 * \<bar>y\<bar> / 2 ^ 53 = \<bar>x\<bar> * (3 / (100000000 * 2 ^ 53))" by simp
  also have "\<dots> \<le> \<bar>x\<bar> * (1 / 10 ^ 23)"
    by (intro mult_left_mono) simp_all
  finally have "3 * \<bar>y\<bar> / 2 ^ 53 \<le> \<bar>x\<bar> / 10 ^ 23" by simp
  with u have "\<bar>of_int k / 100 - x / 100000000\<bar> \<le> 1/200 + \<bar>x\<bar> / 10 ^ 23"
    unfolding y_def by linarith
  with r show ?thesis by blast
qed

lemma single_row_today:
  "getitem (relabelled today (single_row today x)) net_col = Inr [Num x]"
  "getitem (relabelled today (single_row today x)) pct_col = Inr [Num 1]"
  by code_simp+

lemma single_row_days5:
  "getitem (relabelled days5 (single_row days5 x)) net_col = Inr [Num x]"
  "getitem (relabelled days5 (single_row days5 x)) pct_col = Inr [Num 1]"
  by code_simp+

lemma single_row_days10:
  "getitem (relabelled days10 (single_row days10 x)) net_col = Inr [Num x]"
  "getitem (relabelled days10 (single_row days10 x)) pct_col = Inr [Num 1]"
  by code_simp+


lemma process_data_inflow_column:
  assumes "fetch ind = Inr raw"
    and "getitem (relabelled ind raw) net_col = Inr net"
    and "getitem (relabelled ind raw) pct_col = Inr pct"
    and "numbers net = Inr xs"
  shows "\<exists>df. process_data fetch parse ind = (None, df) \<and>
              getitem df inflow_col = Inr (map (\<lambda>x. Num (inflow_yi x)) xs)"
proof -
  from assms(4) have n: "\<not> list_ex is_str net" by (rule numbers_Inr_no_str)
  from assms(1-3) n
  have "process_data fetch parse ind = (None, normalized parse (relabelled ind raw) net pct)"
    by (rule process_data_ok)
  moreover have "getitem (normalized parse (relabelled ind raw) net pct) inflow_col =
      Inr (map (\<lambda>x. Num (inflow_yi x)) xs)"
    by (simp add: getitem_normalized_inflow select_notna_cell_map [OF assms(4)])
  ultimately show ?thesis by blast
qed

lemma single_row_inflow:
  assumes "i \<in> {today, days5, days10}"
  shows "getitem (snd (process_data (returns (single_row i x)) parse i)) inflow_col
           = Inr [Num (inflow_yi x)]"
proof -
  have f: "returns (single_row i x) i = Inr (single_row i x)" by (simp add: returns_def)
  have n: "numbers [Num x] = Inr [x]" by simp
  from assms have "getitem (relabelled i (single_row i x)) net_col = Inr [Num x] \<and>
    getitem (relabelled i (single_row i x)) pct_col = Inr [Num 1]"
    using single_row_today [of x] single_row_days5 [of x] single_row_days10 [of x] by blast
  with process_data_inflow_column [of "returns (single_row i x)" i "single_row i x" "[Num x]"
      "[Num 1]" "[x]" parse] f n
  show ?thesis by auto
qed

lemma inflow_yi_examples:
  "inflow_yi 250000000 = 5/2"
  "inflow_yi 12500000 = fl (12/100)"
  "inflow_yi 57500000 = fl (57/100)"
  "inflow_yi 54500000 = fl (55/100)"
  by code_simp+

section \<open>Properties of \<^verbatim>\<open>generate_heatmap\<close>\<close>

subsection \<open>Tiles\<close>

lemma sum_add_leaf: "sum_list (map snd (add_leaf l v ts)) = sum_list (map snd ts) + v"
  by (induction ts) auto

lemma sum_foldl_add_leaf:
  "sum_list (map snd (foldl (\<lambda>ts (l, v). add_leaf l v ts) acc rs))
     = sum_list (map snd acc) + sum_list (map snd rs)"
proof (induction rs arbitrary: acc)
  case Nil
  show ?case by simp
next
  case (Cons r rs)
  obtain l v where r: "r = (l, v)" by (cases r)
  show ?case by (simp add: r Cons.IH sum_add_leaf)
qed

lemma sum_px_leaves: "sum_list (map snd (px_leaves rs)) = sum_list (map snd rs)"
  by (simp add: px_leaves_def sum_foldl_add_leaf)

lemma add_leaf_fresh: "l \<notin> fst ` set ts \<Longrightarrow> add_leaf l v ts = ts @ [(l, v)]"
  by (induction ts) auto

lemma foldl_add_leaf_distinct:
  "distinct (map fst (acc @ rs)) \<Longrightarrow> foldl (\<lambda>ts (l, v). add_leaf l v ts) acc rs = acc @ rs"
proof (induction rs arbitrary: acc)
  case Nil
  show ?case by simp
next
  case (Cons r rs)
  obtain l v where r: "r = (l, v)" by (cases r)
  from Cons.prems have fresh: "l \<notin> fst ` set acc" by (auto simp: r)
  from Cons.prems have "distinct (map fst ((acc @ [(l, v)]) @ rs))" by (auto simp: r)
  then have "foldl (\<lambda>ts (l, v). add_leaf l v ts) (acc @ [(l, v)]) rs = (acc @ [(l, v)]) @ rs"
    by (rule Cons.IH)
  with fresh show ?case by (simp add: r add_leaf_fresh)
qed

lemma px_leaves_distinct: "distinct (map fst rs) \<Longrightarrow> px_leaves rs = rs"
  using foldl_add_leaf_distinct [of "[]" rs] by (simp add: px_leaves_def)

lemma map_of_add_leaf:
  "map_of (add_leaf l v ts) k =
     (if k = l then Some (case map_of ts l of None \<Rightarrow> v | Some w \<Rightarrow> w + v) else map_of ts k)"
  by (induction ts) auto

lemma map_fst_add_leaf:
  "map fst (add_leaf l v ts) = (if l \<in> set (map fst ts) then map fst ts else map fst ts @ [l])"
proof (induction ts)
  case Nil
  show ?case by simp
next
  case (Cons t ts)
  obtain a b where t: "t = (a, b)" by (cases t)
  show ?case
  proof (cases "a = l")
    case True
    then show ?thesis by (simp add: t)
  next
    case False
    then have "l \<in> set (map fst (t # ts)) \<longleftrightarrow> l \<in> set (map fst ts)" by (auto simp: t)
    with False Cons.IH show ?thesis by (simp add: t)
  qed
qed

lemma fst_add_leaf: "fst ` set (add_leaf l v ts) = insert l (fst ` set ts)"
proof -
  have "set (map fst (add_leaf l v ts)) = insert l (set (map fst ts))"
    by (auto simp: map_fst_add_leaf)
  then show ?thesis by simp
qed

lemma distinct_add_leaf: "distinct (map fst ts) \<Longrightarrow> distinct (map fst (add_leaf l v ts))"
  by (simp add: map_fst_add_leaf)

lemma foldl_add_leaf_labels:
  "distinct (map fst acc) \<Longrightarrow>
   distinct (map fst (foldl (\<lambda>ts (l, v). add_leaf l v ts) acc rs)) \<and>
   fst ` set (foldl (\<lambda>ts (l, v). add_leaf l v ts) acc rs) = fst ` set acc \<union> fst ` set rs"
proof (induction rs arbitrary: acc)
  case Nil
  then show ?case by simp
next
  case (Cons r rs)
  obtain l v where r: "r = (l, v)" by (cases r)
  from Cons.prems have "distinct (map fst (add_leaf l v acc))" by (rule distinct_add_leaf)
  from Cons.IH [OF this] show ?case by (auto simp: r fst_add_leaf)
qed

lemma px_leaves_labels:
  "distinct (map fst (px_leaves rs)) \<and> fst ` set (px_leaves rs) = fst ` set rs"
  using foldl_add_leaf_labels [of "[]" rs] by (simp add: px_leaves_def)

lemma map_of_foldl_add_leaf:
  "map_of (foldl (\<lambda>ts (l, v). add_leaf l v ts) acc rs) k =
     (case map_of acc k of
        None \<Rightarrow> if k \<in> fst ` set rs then Some (sum_list (map snd (filter (\<lambda>r. fst r = k) rs))) else None
      | Some w \<Rightarrow> Some (w + sum_list (map snd (filter (\<lambda>r. fst r = k) rs))))"
proof (induction rs arbitrary: acc)
  case Nil
  show ?case by (simp split: option.splits)
next
  case (Cons r rs)
  obtain l v where r: "r = (l, v)" by (cases r)
  show ?case
    by (auto simp: r Cons.IH map_of_add_leaf split: option.splits)
qed

lemma map_of_px_leaves:
  "map_of (px_leaves rs) k =
     (if k \<in> fst ` set rs then Some (sum_list (map snd (filter (\<lambda>r. fst r = k) rs))) else None)"
  by (simp add: px_leaves_def map_of_foldl_add_leaf)

lemma add_leaf_nonneg:
  "0 \<le> v \<Longrightarrow> list_all (\<lambda>t. 0 \<le> snd t) ts \<Longrightarrow> list_all (\<lambda>t. 0 \<le> snd t) (add_leaf l v ts)"
  by (induction ts) auto

lemma foldl_add_leaf_nonneg:
  "list_all (\<lambda>t. 0 \<le> snd t) acc \<Longrightarrow> list_all (\<lambda>t. 0 \<le> snd t) rs \<Longrightarrow>
   list_all (\<lambda>t. 0 \<le> snd t) (foldl (\<lambda>ts (l, v). add_leaf l v ts) acc rs)"
proof (induction rs arbitrary: acc)
  case Nil
  then show ?case by simp
next
  case (Cons r rs)
  obtain l v where r: "r = (l, v)" by (cases r)
  from Cons.prems have "list_all (\<lambda>t. 0 \<le> snd t) (add_leaf l v acc)"
    by (intro add_leaf_nonneg) (simp_all add: r)
  moreover from Cons.prems have "list_all (\<lambda>t. 0 \<le> snd t) rs" by simp
  ultimately show ?case by (simp add: r Cons.IH)
qed

lemma px_leaves_nonneg:
  "list_all (\<lambda>t. 0 \<le> snd t) rs \<Longrightarrow> list_all (\<lambda>t. 0 \<le> snd t) (px_leaves rs)"
  by (simp add: px_leaves_def foldl_add_leaf_nonneg)

subsection \<open>The figure of a snapshot\<close>

lemma px_column_getitem: "getitem df c = Inr xs \<Longrightarrow> px_column df c = Inr xs"
  by (simp add: getitem_def px_column_def split: option.splits)

lemma px_column_present: "getitem df c \<noteq> Inl KeyError \<Longrightarrow> \<exists>xs. px_column df c = Inr xs"
  by (simp add: getitem_def px_column_def split: option.splits)

lemma traverse_tile_value: "traverse tile_value (map (\<lambda>x. Num \<bar>x\<bar>) xs) = Inr (map abs xs)"
  by (induction xs) simp_all

lemma generate_heatmap_snapshot:
  assumes "snapshot df names xs"
  shows "generate_heatmap df =
     Inr \<lparr>path = [sector_col], values_col = strength_col, color_col = inflow_col,
          tiles = px_leaves (zip names (map abs xs)),
          color_continuous_scale = COLOR_SCALE,
          range_color = (py_neg (color_bound xs), color_bound xs),
          color_continuous_midpoint = 0, branchvalues = Total,
          hover_data = [pct_col, inflow_col, ratio_col], height = 1000\<rparr>"
proof -
  from assms have s: "getitem df inflow_col = Inr (map Num xs)"
    and n: "px_column df sector_col = Inr names"
    and v: "px_column df strength_col = Inr (map (\<lambda>x. Num \<bar>x\<bar>) xs)"
    by (simp_all add: snapshot_def px_column_getitem)
  from assms obtain p r where p: "px_column df pct_col = Inr p" and r: "px_column df ratio_col = Inr r"
    using px_column_present [of df pct_col] px_column_present [of df ratio_col]
    by (auto simp: snapshot_def)
  show ?thesis
    by (simp add: generate_heatmap_def s numbers_map_Num n v traverse_tile_value p r Let_def
        color_bound_def)
qed

lemma color_bound_nonempty:
  assumes "xs \<noteq> []"
  shows "color_bound xs = Some (max \<bar>Min (set xs)\<bar> \<bar>Max (set xs)\<bar>)"
  using assms by (simp add: color_bound_def series_min_def series_max_def py_abs_def max_def)

lemma abs_le_max_abs:
  fixes a b x :: rat
  shows "a \<le> x \<Longrightarrow> x \<le> b \<Longrightarrow> \<bar>x\<bar> \<le> max \<bar>a\<bar> \<bar>b\<bar>"
  unfolding max_def by (cases "\<bar>a\<bar> \<le> \<bar>b\<bar>") (simp_all, linarith+)

lemma color_bound_covers:
  fixes xs :: "rat list"
  assumes "xs \<noteq> []" "x \<in> set xs"
  shows "\<bar>x\<bar> \<le> max \<bar>Min (set xs)\<bar> \<bar>Max (set xs)\<bar>"
proof -
  have "Min (set xs) \<le> x" "x \<le> Max (set xs)" using assms by simp_all
  then show ?thesis by (rule abs_le_max_abs)
qed

lemma scale_lookup_midpoint: "scale_lookup COLOR_SCALE (1/2) = Some (Flat ''#ffffff'')"
  by (simp add: COLOR_SCALE_def)

lemma color_of_zero:
  assumes "range_color fig = (Some (- R), Some R)" "0 \<le> R"
    and "color_continuous_scale fig = COLOR_SCALE"
  shows "color_of fig 0 = Some (Flat ''#ffffff'')"
proof -
  have "\<exists>d. axis_domain fig = Some d \<and> axis_position d 0 = 1/2"
  proof (cases "R = 0")
    case True
    with assms(1) have "axis_domain fig = Some (- 1/2, 1/2)" by (simp add: axis_domain_def)
    moreover have "axis_position (- 1/2, 1/2) 0 = 1/2" by (simp add: axis_position_def)
    ultimately show ?thesis by blast
  next
    case False
    with assms(2) have pos: "0 < R" by simp
    then have ne: "- R \<noteq> R" by simp
    with assms(1) have "axis_domain fig = Some (- R, R)" by (simp add: axis_domain_def)
    moreover from pos have "axis_position (- R, R) 0 = 1/2" by (simp add: axis_position_def)
    ultimately show ?thesis by blast
  qed
  then obtain d where d: "axis_domain fig = Some d" and p: "axis_position d 0 = 1/2" by blast
  show ?thesis
    by (simp only: color_of_def d option.case p assms(3) scale_lookup_midpoint)
qed

subsection \<open>The frame of \<^verbatim>\<open>process_data\<close> is a snapshot\<close>

lemma length_select_numbers:
  "numbers cs = Inr xs \<Longrightarrow> length ys = length cs \<Longrightarrow>
   length (select (map notna cs) ys) = length xs"
proof (induction cs arbitrary: xs ys)
  case Nil
  then show ?case by simp
next
  case (Cons c cs)
  then obtain y ys' where ys: "ys = y # ys'" by (cases ys) auto
  from Cons show ?case
    by (cases c) (auto simp: ys notna_def split: sum.splits)
qed

lemma wf_relabelled: "wf_frame raw \<Longrightarrow> wf_frame (relabelled ind raw)"
  by (auto simp: wf_frame_def relabelled_def rename_columns_def strip_indicator_def
      list_all_iff)

lemma wf_getitem_length:
  "wf_frame df \<Longrightarrow> getitem df c = Inr xs \<Longrightarrow> length xs = length (index df)"
  by (auto simp: wf_frame_def getitem_def list_all_iff split: option.splits dest: map_of_SomeD)

lemma process_data_snapshot:
  assumes "fetch ind = Inr raw" and "wf_frame raw"
    and "getitem (relabelled ind raw) net_col = Inr net"
    and "numbers net = Inr xs"
    and "getitem (relabelled ind raw) pct_col = Inr pct"
    and "getitem (relabelled ind raw) sector_col = Inr names"
    and "getitem (relabelled ind raw) ratio_col = Inr ratios"
  shows "\<exists>df. process_data fetch parse ind = (None, df) \<and>
              snapshot df (select (map notna net) names) (map inflow_yi xs)"
proof -
  let ?R = "relabelled ind raw"
  let ?m = "map notna net"
  let ?df = "normalized parse ?R net pct"
  from assms(4) have n: "\<not> list_ex is_str net" by (rule numbers_Inr_no_str)
  from assms(1,3,5) n have pd: "process_data fetch parse ind = (None, ?df)"
    by (rule process_data_ok)
  have wf: "wf_frame ?R" using assms(2) by (rule wf_relabelled)
  have len: "length net = length (index raw)" "length names = length (index raw)"
    using wf_getitem_length [OF wf assms(3)] wf_getitem_length [OF wf assms(6)]
    by (simp_all add: index_relabelled)
  have 1: "getitem ?df sector_col = Inr (select ?m names)"
    by (simp add: getitem_normalized_other col_neq assms(6))
  have 2: "getitem ?df inflow_col = Inr (map Num (map inflow_yi xs))"
    by (simp add: getitem_normalized_inflow select_notna_cell_map [OF assms(4)] comp_def)
  have 3: "getitem ?df strength_col = Inr (map (\<lambda>x. Num \<bar>x\<bar>) (map inflow_yi xs))"
    by (simp add: getitem_normalized_strength cell_map_comp
        select_notna_cell_map [OF assms(4)] comp_def)
  have 4: "getitem ?df pct_col \<noteq> Inl KeyError" by (simp add: getitem_normalized_pct)
  have 5: "getitem ?df ratio_col \<noteq> Inl KeyError"
    by (simp add: getitem_normalized_other col_neq assms(7))
  have 6: "length (select ?m names) = length (map inflow_yi xs)"
    using length_select_numbers [OF assms(4), of names] len by simp
  have 7: "length (index ?df) = length (map inflow_yi xs)"
    using length_select_numbers [OF assms(4), of "index raw"] len
    by (simp add: index_normalized index_relabelled)
  have 8: "distinct (index ?df)"
    using assms(2) by (simp add: index_normalized index_relabelled wf_frame_def distinct_select)
  from pd 1 2 3 4 5 6 7 8 show ?thesis unfolding snapshot_def by blast
qed

lemma snapshot_heatmap_range:
  assumes "snapshot df names xs" and "xs \<noteq> []"
  shows "\<exists>fig. generate_heatmap df = Inr fig \<and>
           range_color fig = (Some (- max \<bar>Min (set xs)\<bar> \<bar>Max (set xs)\<bar>),
                              Some (max \<bar>Min (set xs)\<bar> \<bar>Max (set xs)\<bar>)) \<and>
           color_continuous_midpoint fig = 0 \<and>
           color_continuous_scale fig = COLOR_SCALE \<and>
           path fig = [sector_col] \<and> values_col fig = strength_col \<and>
           color_col fig = inflow_col \<and> branchvalues fig = Total \<and>
           tiles fig = px_leaves (zip names (map abs xs))"
  by (simp add: generate_heatmap_snapshot [OF assms(1)] color_bound_nonempty [OF assms(2)]
      py_neg_def)

subsection \<open>Example snapshots\<close>

lemma zero_example_snapshot:
  "snapshot (snd (process_data (returns zero_example) plain_decimal today))
     [Str ''A'', Str ''B''] [0, 0]"
  by code_simp

lemma four_example_snapshot:
  "snapshot (snd (process_data (returns four_example) plain_decimal today))
     [Str ''A'', Str ''B'', Str ''C'', Str ''D''] [-3, -1, 2, 2]"
  by code_simp

lemma tied_example_snapshot:
  "snapshot (snd (process_data (returns tied_example) plain_decimal today))
     [Str ''A'', Str ''B''] [5, 5]"
  by code_simp

section \<open>Properties of \<^verbatim>\<open>main_display\<close>\<close>

lemma first_label_snapshot:
  "length idx = length xs \<Longrightarrow> M \<in> set xs \<Longrightarrow>
   \<exists>k<length xs. xs ! k = M \<and> (\<forall>j<k. xs ! j \<noteq> M) \<and>
      first_label idx (map Num xs) M = Inr (idx ! k)"
proof (induction idx xs rule: list_induct2)
  case Nil
  then show ?case by simp
next
  case (Cons i idx x xs)
  show ?case
  proof (cases "x = M")
    case True
    then have "first_label (i # idx) (map Num (x # xs)) M = Inr ((i # idx) ! 0)"
      by (simp add: first_label_def)
    with True show ?thesis by (intro exI [of _ 0]) simp
  next
    case False
    with Cons.prems have "M \<in> set xs" by simp
    from Cons.IH [OF this] obtain k where k: "k < length xs" "xs ! k = M"
      "\<forall>j<k. xs ! j \<noteq> M" "first_label idx (map Num xs) M = Inr (idx ! k)" by blast
    from False k(4) have "first_label (i # idx) (map Num (x # xs)) M = Inr ((i # idx) ! Suc k)"
      by (simp add: first_label_def)
    moreover from False k(3) have "\<forall>j<Suc k. (x # xs) ! j \<noteq> M"
      by (auto simp: nth_Cons split: nat.splits)
    ultimately show ?thesis using k(1,2) by (intro exI [of _ "Suc k"]) simp
  qed
qed

lemma find_label_zip:
  "length idx = length ns \<Longrightarrow> distinct idx \<Longrightarrow> k < length ns \<Longrightarrow>
   find (\<lambda>(i, x). i = idx ! k) (zip idx ns) = Some (idx ! k, ns ! k)"
proof (induction idx ns arbitrary: k rule: list_induct2)
  case Nil
  then show ?case by simp
next
  case (Cons i idx n ns)
  show ?case
  proof (cases k)
    case 0
    then show ?thesis by simp
  next
    case (Suc k')
    with Cons.prems have "idx ! k' \<noteq> i" "k' < length ns" "distinct idx"
      using Cons.hyps by auto
    with Cons.IH [of k'] Suc show ?thesis by simp
  qed
qed

lemma loc_snapshot:
  assumes "getitem df c = Inr ns" and "length (index df) = length ns"
    and "distinct (index df)" and "k < length ns"
  shows "loc df (index df ! k) c = Inr (ns ! k)"
  using find_label_zip [OF assms(2,3,4)] by (simp add: loc_def assms(1))

lemma snapshot_not_empty:
  assumes "snapshot df names xs" and "xs \<noteq> []"
  shows "\<not> df_empty df"
proof -
  from assms have "index df \<noteq> []" by (auto simp: snapshot_def)
  moreover from assms(1) have "data df \<noteq> []"
    by (auto simp: snapshot_def getitem_def)
  ultimately show ?thesis by (simp add: df_empty_def)
qed

lemma main_display_snapshot:
  assumes "snapshot df names xs" and "xs \<noteq> []"
  shows "\<exists>fig k k'. main_display df =
           Inr [Title, Caption, PlotlyChart fig,
                MetricInflow (Some (format_2f (Max (set xs)))) (names ! k),
                MetricOutflow (Some (format_2f (Min (set xs)))) (names ! k'),
                MetricRatio (length (filter (\<lambda>x. 0 < x) xs)) (length (filter (\<lambda>x. x < 0) xs))
                  (format_2f (sum_list xs))] \<and>
           generate_heatmap df = Inr fig \<and>
           k < length xs \<and> xs ! k = Max (set xs) \<and> (\<forall>j<k. xs ! j \<noteq> Max (set xs)) \<and>
           k' < length xs \<and> xs ! k' = Min (set xs) \<and> (\<forall>j<k'. xs ! j \<noteq> Min (set xs))"
proof -
  from assms(1) have s: "getitem df inflow_col = Inr (map Num xs)"
    and nm: "getitem df sector_col = Inr names"
    and len: "length (index df) = length xs" "length names = length xs"
    and dist: "distinct (index df)"
    by (simp_all add: snapshot_def)
  from generate_heatmap_snapshot [OF assms(1)] obtain fig
    where fig: "generate_heatmap df = Inr fig" by blast
  have mx: "Max (set xs) \<in> set xs" and mn: "Min (set xs) \<in> set xs"
    using assms(2) by simp_all
  from first_label_snapshot [OF len(1) mx] obtain k where k: "k < length xs"
    "xs ! k = Max (set xs)" "\<forall>j<k. xs ! j \<noteq> Max (set xs)"
    "first_label (index df) (map Num xs) (Max (set xs)) = Inr (index df ! k)" by blast
  from first_label_snapshot [OF len(1) mn] obtain k' where k': "k' < length xs"
    "xs ! k' = Min (set xs)" "\<forall>j<k'. xs ! j \<noteq> Min (set xs)"
    "first_label (index df) (map Num xs) (Min (set xs)) = Inr (index df ! k')" by blast
  have imax: "idxmax (index df) (map Num xs) = Inr (index df ! k)"
    using assms(2) by (simp add: idxmax_def numbers_map_Num series_max_def k(4))
  have imin: "idxmin (index df) (map Num xs) = Inr (index df ! k')"
    using assms(2) by (simp add: idxmin_def numbers_map_Num series_min_def k'(4))
  have l1: "loc df (index df ! k) sector_col = Inr (names ! k)"
    using nm _ dist by (rule loc_snapshot) (simp_all add: len k(1))
  have l2: "loc df (index df ! k') sector_col = Inr (names ! k')"
    using nm _ dist by (rule loc_snapshot) (simp_all add: len k'(1))
  have "main_display df =
           Inr [Title, Caption, PlotlyChart fig,
                MetricInflow (Some (format_2f (Max (set xs)))) (names ! k),
                MetricOutflow (Some (format_2f (Min (set xs)))) (names ! k'),
                MetricRatio (length (filter (\<lambda>x. 0 < x) xs)) (length (filter (\<lambda>x. x < 0) xs))
                  (format_2f (sum_list xs))]"
    using assms(2)
    by (simp add: main_display_def snapshot_not_empty [OF assms] fig s numbers_map_Num
        imax imin l1 l2 series_max_def series_min_def)
  with fig k(1-3) k'(1-3) show ?thesis by blast
qed

subsection \<open>The format with two decimals, and counting\<close>

lemma rint_of_int: "rint (of_int k) = k"
  by (simp add: rint_def Let_def)

lemma format_2f_close: "\<bar>format_2f y - y\<bar> \<le> 1/200"
proof -
  have "format_2f y - y = (of_int (rint (y * 100)) - y * 100) / 100"
    by (simp add: format_2f_def field_simps)
  then have "\<bar>format_2f y - y\<bar> = \<bar>(of_int (rint (y * 100)) - y * 100) / 100\<bar>" by (simp only:)
  also have "\<dots> = \<bar>of_int (rint (y * 100)) - y * 100\<bar> / \<bar>100\<bar>" by (rule abs_divide)
  finally show ?thesis using rint_cases [of "y * 100"] by simp
qed

lemma format_2f_hundredth: "format_2f (of_int k / 100) = of_int k / 100"
  by (simp add: format_2f_def rint_of_int)

lemma rint_nearest:
  fixes y :: rat
  shows "\<bar>of_int (rint y) - y\<bar> \<le> \<bar>of_int k - y\<bar>"
proof (cases "k = rint y")
  case True
  then show ?thesis by simp
next
  case False
  have "\<bar>of_int k - (of_int (rint y) :: rat)\<bar> = of_int \<bar>k - rint y\<bar>" by simp
  moreover have "1 \<le> \<bar>k - rint y\<bar>" using False by linarith
  then have "(1::rat) \<le> of_int \<bar>k - rint y\<bar>" by linarith
  ultimately have "1 \<le> \<bar>of_int k - (of_int (rint y) :: rat)\<bar>" by simp
  with rint_cases [of y] show ?thesis by linarith
qed

lemma format_2f_nearest:
  "(\<exists>k::int. format_2f y = of_int k / 100) \<and>
   (\<forall>j::int. \<bar>format_2f y - y\<bar> \<le> \<bar>of_int j / 100 - y\<bar>)"
proof -
  have sc: "\<bar>of_int j / 100 - y\<bar> = \<bar>of_int j - y * 100\<bar> / 100" for j :: int
  proof -
    have "of_int j / 100 - y = (of_int j - y * 100) / 100" by (simp add: field_simps)
    then have "\<bar>of_int j / 100 - y\<bar> = \<bar>(of_int j - y * 100) / 100\<bar>" by (simp only:)
    also have "\<dots> = \<bar>of_int j - y * 100\<bar> / \<bar>100\<bar>" by (rule abs_divide)
    finally show ?thesis by simp
  qed
  have f: "format_2f y = of_int (rint (y * 100)) / 100" by (simp add: format_2f_def)
  have "\<bar>format_2f y - y\<bar> \<le> \<bar>of_int j / 100 - y\<bar>" for j :: int
    unfolding f sc using rint_nearest [of "y * 100" j] by (simp add: divide_right_mono)
  with f show ?thesis by blast
qed

lemma sum_list_hundredths:
  fixes xs :: "rat list"
  shows "\<forall>x\<in>set xs. \<exists>k::int. x = of_int k / 100 \<Longrightarrow> \<exists>K::int. sum_list xs = of_int K / 100"
proof (induction xs)
  case Nil
  show ?case by (intro exI [of _ 0]) simp
next
  case (Cons x xs)
  then obtain k K :: int where "x = of_int k / 100" "sum_list xs = of_int K / 100" by auto
  then have "sum_list (x # xs) = of_int (k + K) / 100" by (simp add: add_divide_distrib)
  then show ?case by blast
qed

lemma filter_sign_partition:
  fixes xs :: "rat list"
  shows "length (filter (\<lambda>x. 0 < x) xs) + length (filter (\<lambda>x. x < 0) xs)
           + length (filter (\<lambda>x. x = 0) xs) = length xs"
  by (induction xs) auto

section \<open>The claims\<close>

text \<open>
  Claim C1 (as amended). Take any table the provider returns that has, after the
  relabelling, a net inflow column \<open>net\<close> and a price change column \<open>pct\<close>.
  If a cell of \<open>net\<close> is a string, the division of line 32 raises and the whole snapshot
  is discarded: \<open>process_data\<close> reports \<^verbatim>\<open>TypeError\<close> and returns the empty frame.
  Otherwise \<open>process_data\<close> returns a frame that holds exactly the rows whose net inflow
  is not missing, in their order: its index, its written columns and every other column
  are the selection by the one mask \<open>map notna net\<close>. A row whose net inflow is a number
  and whose price change is a string that does not parse is among them, with the price
  change missing.
\<close>

theorem normalize_drops_missing_rows:
  assumes "fetch ind = Inr raw"
    and "getitem (relabelled ind raw) net_col = Inr net"
    and "getitem (relabelled ind raw) pct_col = Inr pct"
  shows "(list_ex is_str net \<longrightarrow>
            process_data fetch parse ind = (Some TypeError, DataFrame_empty)) \<and>
         (\<not> list_ex is_str net \<longrightarrow>
            (\<exists>df. process_data fetch parse ind = (None, df) \<and>
               index df = select (map notna net) (index raw) \<and>
               getitem df inflow_col = Inr (select (map notna net) (map (cell_map inflow_yi) net)) \<and>
               getitem df pct_col = Inr (select (map notna net) (map (cell_to_numeric parse) pct)) \<and>
               (\<forall>c xs. c \<noteq> inflow_col \<and> c \<noteq> pct_col \<and> c \<noteq> strength_col \<and>
                   getitem (relabelled ind raw) c = Inr xs \<longrightarrow>
                   getitem df c = Inr (select (map notna net) xs)) \<and>
               (\<forall>j x s. j < length net \<and> j < length pct \<and> j < length (index raw) \<and>
                   net ! j = Num x \<and> pct ! j = Str s \<and> parse s = None \<longrightarrow>
                   (index raw ! j, Num (inflow_yi x), NaN)
                     \<in> set (zip (index df)
                          (zip (select (map notna net) (map (cell_map inflow_yi) net))
                               (select (map notna net) (map (cell_to_numeric parse) pct)))))))"
proof (intro conjI impI)
  assume "list_ex is_str net"
  with assms show "process_data fetch parse ind = (Some TypeError, DataFrame_empty)"
    by (simp add: process_data_eq)
next
  assume num: "\<not> list_ex is_str net"
  let ?m = "map notna net"
  let ?df = "normalized parse (relabelled ind raw) net pct"
  have pd: "process_data fetch parse ind = (None, ?df)"
    using assms num by (rule process_data_ok)
  have idx: "index ?df = select ?m (index raw)"
    by (simp add: index_normalized index_relabelled)
  have other: "\<forall>c xs. c \<noteq> inflow_col \<and> c \<noteq> pct_col \<and> c \<noteq> strength_col \<and>
                   getitem (relabelled ind raw) c = Inr xs \<longrightarrow>
                   getitem ?df c = Inr (select ?m xs)"
    by (simp add: getitem_normalized_other)
  have rows: "\<forall>j x s. j < length net \<and> j < length pct \<and> j < length (index raw) \<and>
                   net ! j = Num x \<and> pct ! j = Str s \<and> parse s = None \<longrightarrow>
                   (index raw ! j, Num (inflow_yi x), NaN)
                     \<in> set (zip (index ?df)
                          (zip (select ?m (map (cell_map inflow_yi) net))
                               (select ?m (map (cell_to_numeric parse) pct))))"
  proof (intro allI impI)
    fix j x s
    assume a: "j < length net \<and> j < length pct \<and> j < length (index raw) \<and>
                   net ! j = Num x \<and> pct ! j = Str s \<and> parse s = None"
    let ?z = "zip (index raw) (zip (map (cell_map inflow_yi) net) (map (cell_to_numeric parse) pct))"
    have "?z ! j \<in> set (select ?m ?z)"
      using a by (intro select_nth_mem) (simp_all add: notna_def)
    moreover have "?z ! j = (index raw ! j, Num (inflow_yi x), NaN)"
      using a by (simp add: cell_map_def)
    ultimately show "(index raw ! j, Num (inflow_yi x), NaN)
                     \<in> set (zip (index ?df)
                          (zip (select ?m (map (cell_map inflow_yi) net))
                               (select ?m (map (cell_to_numeric parse) pct))))"
      by (simp add: idx select_zip)
  qed
  show "\<exists>df. process_data fetch parse ind = (None, df) \<and>
               index df = select (map notna net) (index raw) \<and>
               getitem df inflow_col = Inr (select (map notna net) (map (cell_map inflow_yi) net)) \<and>
               getitem df pct_col = Inr (select (map notna net) (map (cell_to_numeric parse) pct)) \<and>
               (\<forall>c xs. c \<noteq> inflow_col \<and> c \<noteq> pct_col \<and> c \<noteq> strength_col \<and>
                   getitem (relabelled ind raw) c = Inr xs \<longrightarrow>
                   getitem df c = Inr (select (map notna net) xs)) \<and>
               (\<forall>j x s. j < length net \<and> j < length pct \<and> j < length (index raw) \<and>
                   net ! j = Num x \<and> pct ! j = Str s \<and> parse s = None \<longrightarrow>
                   (index raw ! j, Num (inflow_yi x), NaN)
                     \<in> set (zip (index df)
                          (zip (select (map notna net) (map (cell_map inflow_yi) net))
                               (select (map notna net) (map (cell_to_numeric parse) pct)))))"
    using pd idx other rows
    by (intro exI [of _ ?df] conjI getitem_normalized_inflow getitem_normalized_pct)
qed

text \<open>The example of C1 with the net inflow typed as the provider types it: the row of
  A (net inflow missing) is dropped, the row of B is kept with the net inflow 1.0 and
  the price change missing.\<close>

theorem normalize_drops_missing_rows_witness:
  "\<exists>df. process_data (returns missing_example) plain_decimal today = (None, df) \<and>
        index df = [1] \<and>
        getitem df sector_col = Inr [Str ''B''] \<and>
        getitem df inflow_col = Inr [Num 1] \<and>
        getitem df pct_col = Inr [NaN]"
proof -
  have f: "returns missing_example today = Inr missing_example" by (simp add: returns_def)
  have n: "\<not> list_ex is_str [NaN, Num 100000000]" by (simp add: is_str_def)
  have i: "index missing_example = [0, 1]" by code_simp
  have y: "inflow_yi 100000000 = 1" by code_simp
  have p: "plain_decimal ''bad'' = None" by code_simp
  have s: "sector_col \<noteq> inflow_col \<and> sector_col \<noteq> pct_col \<and> sector_col \<noteq> strength_col"
    by (simp add: col_neq)
  from normalize_drops_missing_rows [of "returns missing_example" today missing_example
      "[NaN, Num 100000000]" "[Str ''3.2'', Str ''bad'']" plain_decimal]
    f missing_example_net missing_example_pct n
  obtain df where df: "process_data (returns missing_example) plain_decimal today = (None, df)"
    "index df = select (map notna [NaN, Num 100000000]) (index missing_example)"
    "getitem df inflow_col = Inr (select (map notna [NaN, Num 100000000])
        (map (cell_map inflow_yi) [NaN, Num 100000000]))"
    "getitem df pct_col = Inr (select (map notna [NaN, Num 100000000])
        (map (cell_to_numeric plain_decimal) [Str ''3.2'', Str ''bad'']))"
    "\<forall>c xs. c \<noteq> inflow_col \<and> c \<noteq> pct_col \<and> c \<noteq> strength_col \<and>
        getitem (relabelled today missing_example) c = Inr xs \<longrightarrow>
        getitem df c = Inr (select (map notna [NaN, Num 100000000]) xs)"
    by blast
  from df(5) s missing_example_name
  have "getitem df sector_col = Inr (select (map notna [NaN, Num 100000000]) [Str ''A'', Str ''B''])"
    by blast
  with df(1-4) show ?thesis
    by (intro exI [of _ df]) (simp add: notna_def i cell_map_def y p)
qed

text \<open>The example of C1 as the specification writes it, every field a string: no row
  is returned, and the error is reported.\<close>

theorem strings_example_is_discarded:
  "process_data (returns strings_example) plain_decimal today = (Some TypeError, DataFrame_empty) \<and>
   index (snd (process_data (returns strings_example) plain_decimal today)) = []"
  by code_simp



text \<open>
  Claim C10. \<open>process_data\<close> is total: whatever is raised inside the \<^verbatim>\<open>try\<close> block
  is reported and answered with the empty frame. This holds for a failure of the
  provider, for a missing net inflow or price change column (\<^verbatim>\<open>KeyError\<close>) and for a
  net inflow column holding a string (\<^verbatim>\<open>TypeError\<close>): such an error discards the
  whole snapshot, not single rows. The result is either the frame of a run in which
  nothing was raised, or the empty frame.
\<close>

theorem process_data_never_raises:
  "(\<forall>e. process_data_body fetch parse ind = Inl e \<longrightarrow>
        process_data fetch parse ind = (Some e, DataFrame_empty)) \<and>
   (\<forall>e. fetch ind = Inl e \<longrightarrow> process_data fetch parse ind = (Some e, DataFrame_empty)) \<and>
   (\<forall>raw. fetch ind = Inr raw \<and> getitem (relabelled ind raw) net_col = Inl KeyError \<longrightarrow>
        process_data fetch parse ind = (Some KeyError, DataFrame_empty)) \<and>
   (\<forall>raw net. fetch ind = Inr raw \<and> getitem (relabelled ind raw) net_col = Inr net \<and>
        list_ex is_str net \<longrightarrow>
        process_data fetch parse ind = (Some TypeError, DataFrame_empty)) \<and>
   (\<forall>raw net. fetch ind = Inr raw \<and> getitem (relabelled ind raw) net_col = Inr net \<and>
        \<not> list_ex is_str net \<and> getitem (relabelled ind raw) pct_col = Inl KeyError \<longrightarrow>
        process_data fetch parse ind = (Some KeyError, DataFrame_empty)) \<and>
   (fst (process_data fetch parse ind) = None \<or>
    snd (process_data fetch parse ind) = DataFrame_empty) \<and>
   (fst (process_data fetch parse ind) = None) = (\<exists>df. process_data_body fetch parse ind = Inr df)"
proof (intro conjI allI impI)
  fix e assume "process_data_body fetch parse ind = Inl e"
  then show "process_data fetch parse ind = (Some e, DataFrame_empty)"
    by (simp add: process_data_def)
next
  fix e assume "fetch ind = Inl e"
  then show "process_data fetch parse ind = (Some e, DataFrame_empty)"
    by (simp add: process_data_eq)
next
  fix raw assume "fetch ind = Inr raw \<and> getitem (relabelled ind raw) net_col = Inl KeyError"
  then show "process_data fetch parse ind = (Some KeyError, DataFrame_empty)"
    by (simp add: process_data_eq)
next
  fix raw net
  assume "fetch ind = Inr raw \<and> getitem (relabelled ind raw) net_col = Inr net \<and> list_ex is_str net"
  then show "process_data fetch parse ind = (Some TypeError, DataFrame_empty)"
    by (simp add: process_data_eq)
next
  fix raw net
  assume "fetch ind = Inr raw \<and> getitem (relabelled ind raw) net_col = Inr net \<and>
        \<not> list_ex is_str net \<and> getitem (relabelled ind raw) pct_col = Inl KeyError"
  then show "process_data fetch parse ind = (Some KeyError, DataFrame_empty)"
    by (simp add: process_data_eq)
next
  show "fst (process_data fetch parse ind) = None \<or>
    snd (process_data fetch parse ind) = DataFrame_empty"
    by (simp add: process_data_def split: sum.splits)
next
  show "(fst (process_data fetch parse ind) = None) = (\<exists>df. process_data_body fetch parse ind = Inr df)"
    by (simp add: process_data_def split: sum.splits)
qed

text \<open>A failing provider, a table without the net inflow column, and a table with one
  proper row and one string: each ends in the reported error and the empty frame.\<close>

theorem process_data_never_raises_witness:
  "process_data unreachable plain_decimal today = (Some ProviderError, DataFrame_empty) \<and>
   process_data (returns no_net_example) plain_decimal today = (Some KeyError, DataFrame_empty) \<and>
   process_data (returns mixed_example) plain_decimal today = (Some TypeError, DataFrame_empty)"
proof -
  have u: "unreachable today = Inl ProviderError" by (simp add: unreachable_def)
  have f: "returns no_net_example today = Inr no_net_example" by (simp add: returns_def)
  have g: "returns mixed_example today = Inr mixed_example" by (simp add: returns_def)
  have s: "list_ex is_str [Num 100000000, Str ''bad'']" by (simp add: is_str_def)
  from process_data_never_raises [of unreachable plain_decimal today] u
  have 1: "process_data unreachable plain_decimal today = (Some ProviderError, DataFrame_empty)"
    by blast
  from process_data_never_raises [of "returns no_net_example" plain_decimal today]
    f no_net_example_net
  have 2: "process_data (returns no_net_example) plain_decimal today = (Some KeyError, DataFrame_empty)"
    by blast
  from process_data_never_raises [of "returns mixed_example" plain_decimal today]
    g mixed_example_net s
  have 3: "process_data (returns mixed_example) plain_decimal today = (Some TypeError, DataFrame_empty)"
    by blast
  from 1 2 3 show ?thesis by simp
qed

text \<open>
  Claim C5. If the provider raises, \<open>process_data\<close> reports the error and returns the
  empty frame, and \<open>main_display\<close> on that frame (on any empty frame) shows the title, the
  caption and the warning only: no chart, no metric, no exception.
\<close>

theorem provider_failure_degrades:
  "(fetch ind = Inl e \<longrightarrow>
      process_data fetch parse ind = (Some e, DataFrame_empty) \<and>
      main_display (snd (process_data fetch parse ind)) = Inr [Title, Caption, Warning]) \<and>
   (df_empty df \<longrightarrow> main_display df = Inr [Title, Caption, Warning])"
proof (intro conjI impI)
  assume f: "fetch ind = Inl e"
  then show "process_data fetch parse ind = (Some e, DataFrame_empty)"
    by (simp add: process_data_eq)
  from f have "snd (process_data fetch parse ind) = DataFrame_empty"
    by (simp add: process_data_eq)
  moreover have "df_empty DataFrame_empty" by (simp add: df_empty_def DataFrame_empty_def)
  ultimately show "main_display (snd (process_data fetch parse ind)) = Inr [Title, Caption, Warning]"
    by (simp add: main_display_empty)
next
  assume "df_empty df"
  then show "main_display df = Inr [Title, Caption, Warning]" by (rule main_display_empty)
qed

text \<open>The provider that always raises.\<close>

theorem provider_failure_degrades_witness:
  "process_data unreachable plain_decimal today = (Some ProviderError, DataFrame_empty) \<and>
   main_display (snd (process_data unreachable plain_decimal today)) = Inr [Title, Caption, Warning] \<and>
   main_display DataFrame_empty = Inr [Title, Caption, Warning]"
proof -
  have u: "unreachable today = Inl ProviderError" by (simp add: unreachable_def)
  have e: "df_empty DataFrame_empty" by (simp add: df_empty_def DataFrame_empty_def)
  from provider_failure_degrades [of unreachable today ProviderError plain_decimal DataFrame_empty] u e
  show ?thesis by blast
qed


text \<open>
  Claim C2 (as amended). For every table with a net inflow column free of strings, the
  net inflow column of the returned frame holds, for the numbers \<open>xs\<close> of the raw
  column in order, \<open>inflow_yi x\<close>: the raw amount divided by 10^8 and rounded to two
  decimals in double arithmetic, as \<^verbatim>\<open>Series.round(2)\<close> does it. The value is the double
  nearest to a hundredth \<open>k / 100\<close>, and \<open>k / 100\<close> lies within 0.005 of the exact quotient,
  up to the rounding error of the doubles, which is at most \<open>|x| / 10^23\<close> (a double
  differs from the exact result by at most the fraction \<open>2^-53\<close> of it). The rounding is
  not half up: 12500000 yields 0.12, and 57500000 yields 0.57, while 54500000 yields
  0.55. 250000000 yields 2.5 under each of the three period indicators.
\<close>

theorem net_inflow_rounding:
  assumes "fetch ind = Inr raw"
    and "getitem (relabelled ind raw) net_col = Inr net"
    and "getitem (relabelled ind raw) pct_col = Inr pct"
    and "numbers net = Inr xs"
  shows "(\<exists>df. process_data fetch parse ind = (None, df) \<and>
              getitem df inflow_col = Inr (map (\<lambda>x. Num (inflow_yi x)) xs)) \<and>
         (\<forall>x. \<exists>k. inflow_yi x = fl (of_int k / 100) \<and>
              \<bar>of_int k / 100 - x / 100000000\<bar> \<le> 1/200 + \<bar>x\<bar> / 10 ^ 23) \<and>
         (\<forall>y. \<bar>fl y - y\<bar> \<le> \<bar>y\<bar> / 2 ^ 53) \<and>
         (\<forall>i\<in>{today, days5, days10}.
              getitem (snd (process_data (returns (single_row i 250000000)) parse i)) inflow_col
                = Inr [Num (5/2)]) \<and>
         inflow_yi 12500000 = fl (12 / 100) \<and>
         inflow_yi 57500000 = fl (57 / 100) \<and>
         inflow_yi 54500000 = fl (55 / 100)"
proof (intro conjI allI ballI)
  show "\<exists>df. process_data fetch parse ind = (None, df) \<and>
              getitem df inflow_col = Inr (map (\<lambda>x. Num (inflow_yi x)) xs)"
    using assms by (rule process_data_inflow_column)
next
  fix x
  show "\<exists>k. inflow_yi x = fl (of_int k / 100) \<and>
              \<bar>of_int k / 100 - x / 100000000\<bar> \<le> 1/200 + \<bar>x\<bar> / 10 ^ 23"
    by (rule inflow_yi_accuracy)
next
  fix y
  show "\<bar>fl y - y\<bar> \<le> \<bar>y\<bar> / 2 ^ 53" by (rule fl_error)
next
  fix i assume "i \<in> {today, days5, days10}"
  then show "getitem (snd (process_data (returns (single_row i 250000000)) parse i)) inflow_col
                = Inr [Num (5/2)]"
    by (simp only: single_row_inflow inflow_yi_examples)
next
  show "inflow_yi 12500000 = fl (12 / 100)" by (rule inflow_yi_examples)
next
  show "inflow_yi 57500000 = fl (57 / 100)" by (rule inflow_yi_examples)
next
  show "inflow_yi 54500000 = fl (55 / 100)" by (rule inflow_yi_examples)
qed

text \<open>The table of one sector with the net inflow 250000000.\<close>

theorem net_inflow_rounding_witness:
  "\<exists>df. process_data (returns (single_row today 250000000)) plain_decimal today = (None, df) \<and>
        getitem df inflow_col = Inr [Num (5/2)]"
proof -
  have f: "returns (single_row today 250000000) today = Inr (single_row today 250000000)"
    by (simp add: returns_def)
  have n: "numbers [Num 250000000] = Inr [250000000]" by simp
  from net_inflow_rounding [of "returns (single_row today 250000000)" today
      "single_row today 250000000" "[Num 250000000]" "[Num 1]" "[250000000]" plain_decimal]
    f n single_row_today [of 250000000]
  show ?thesis by (simp add: inflow_yi_examples)
qed

text \<open>The tie 12500000 / 10^8 = 0.125: the source returns the double nearest to 0.12,
  which is below 0.125; rounding half up gives 0.13.\<close>

theorem tie_is_not_rounded_half_up:
  "getitem (snd (process_data (returns tie_example) plain_decimal today)) inflow_col
     = Inr [Num (fl (12 / 100))] \<and>
   fl (12 / 100) < 125 / 1000 \<and>
   round_half_up 2 (12500000 / 100000000) = 13 / 100"
  by code_simp


text \<open>
  Claim C3 (as amended). For every non-empty snapshot whose net inflows are all zero,
  the bound the source computes is exactly zero, \<open>R = max(|min|, |max|) = 0\<close>: the
  \<^verbatim>\<open>range_color\<close> handed to the plotting library is \<open>[0, 0]\<close>, with the midpoint 0 and the
  colour scale of the source, and no positive minimum is applied. Which colour the
  tiles then get is decided by the plotting library and is no part of the statement.
\<close>

theorem zero_snapshot_range:
  assumes "snapshot df names xs" and "xs \<noteq> []" and "\<forall>x\<in>set xs. x = 0"
  shows "\<exists>fig. generate_heatmap df = Inr fig \<and>
           range_color fig = (Some 0, Some 0) \<and>
           max \<bar>Min (set xs)\<bar> \<bar>Max (set xs)\<bar> = 0 \<and>
           color_continuous_midpoint fig = 0 \<and>
           color_continuous_scale fig = COLOR_SCALE"
proof -
  from assms(2,3) have s: "set xs = {0}" by (cases xs) auto
  from snapshot_heatmap_range [OF assms(1,2)] obtain fig
    where fig: "generate_heatmap df = Inr fig"
      "range_color fig = (Some (- 0), Some 0)"
      "color_continuous_midpoint fig = 0"
      "color_continuous_scale fig = COLOR_SCALE"
    unfolding s by auto
  have "max \<bar>Min (set xs)\<bar> \<bar>Max (set xs)\<bar> = 0" unfolding s by simp
  with fig show ?thesis by auto
qed

text \<open>The snapshot of two sectors without net inflow.\<close>

theorem zero_snapshot_range_witness:
  "\<exists>fig. generate_heatmap (snd (process_data (returns zero_example) plain_decimal today)) = Inr fig \<and>
         range_color fig = (Some 0, Some 0)"
proof -
  have ne: "[0, 0] \<noteq> ([] :: rat list)" by simp
  have z: "\<forall>x\<in>set [0, 0 :: rat]. x = 0" by simp
  from zero_snapshot_range [OF zero_example_snapshot ne z] show ?thesis by auto
qed

text \<open>For that snapshot the bound of the source is 0, which is not positive.\<close>

theorem zero_snapshot_bound_is_zero:
  "snapshot (snd (process_data (returns zero_example) plain_decimal today))
     [Str ''A'', Str ''B''] [0, 0] \<and>
   map_sum id range_color
     (generate_heatmap (snd (process_data (returns zero_example) plain_decimal today)))
     = Inr (Some 0, Some 0) \<and>
   \<not> (0 :: rat) < 0"
  by code_simp

text \<open>
  Claim C4. For every non-empty snapshot the colour range is \<open>[-R, R]\<close> with
  \<open>R = max(|min|, |max|)\<close> of the net inflows, \<open>R\<close> is not negative and every net
  inflow lies in the range; the midpoint of the colour axis is 0, and the value 0 is
  coloured with the neutral stop \<^verbatim>\<open>#ffffff\<close> whatever \<open>R\<close> is (for \<open>R = 0\<close> by the
  widening of the plotting library).
\<close>

theorem color_domain_symmetric:
  assumes "snapshot df names xs" and "xs \<noteq> []"
  shows "\<exists>fig R. generate_heatmap df = Inr fig \<and>
           range_color fig = (Some (- R), Some R) \<and>
           R = max \<bar>Min (set xs)\<bar> \<bar>Max (set xs)\<bar> \<and> 0 \<le> R \<and>
           (\<forall>x\<in>set xs. - R \<le> x \<and> x \<le> R) \<and>
           color_continuous_midpoint fig = 0 \<and>
           color_continuous_scale fig = COLOR_SCALE \<and>
           axis_domain fig = Some (if R = 0 then (- 1/2, 1/2) else (- R, R)) \<and>
           color_of fig 0 = Some (Flat ''#ffffff'')"
proof -
  define R where "R = max \<bar>Min (set xs)\<bar> \<bar>Max (set xs)\<bar>"
  from snapshot_heatmap_range [OF assms] obtain fig
    where fig: "generate_heatmap df = Inr fig"
      "range_color fig = (Some (- R), Some R)"
      "color_continuous_midpoint fig = 0"
      "color_continuous_scale fig = COLOR_SCALE"
    unfolding R_def by blast
  have nonneg: "0 \<le> R" unfolding R_def by simp
  have cover: "\<forall>x\<in>set xs. - R \<le> x \<and> x \<le> R"
  proof
    fix x assume "x \<in> set xs"
    with assms(2) have "\<bar>x\<bar> \<le> R" unfolding R_def by (rule color_bound_covers)
    then show "- R \<le> x \<and> x \<le> R" by linarith
  qed
  have dom: "axis_domain fig = Some (if R = 0 then (- 1/2, 1/2) else (- R, R))"
    using nonneg by (simp add: axis_domain_def fig(2))
  have zero: "color_of fig 0 = Some (Flat ''#ffffff'')"
    using fig(2) nonneg fig(4) by (rule color_of_zero)
  from fig nonneg cover dom zero show ?thesis unfolding R_def by blast
qed

text \<open>The snapshot with the net inflows -3, -1, 2, 2: the range is \<open>[-3, 3]\<close>.\<close>

theorem color_domain_symmetric_witness:
  "\<exists>fig. generate_heatmap (snd (process_data (returns four_example) plain_decimal today)) = Inr fig \<and>
         range_color fig = (Some (- 3), Some 3) \<and>
         color_of fig 0 = Some (Flat ''#ffffff'')"
proof -
  have ne: "[-3, -1, 2, 2] \<noteq> ([] :: rat list)" by simp
  have m: "max \<bar>Min (set [-3, -1, 2, 2 :: rat])\<bar> \<bar>Max (set [-3, -1, 2, 2 :: rat])\<bar> = 3"
    by simp
  from color_domain_symmetric [OF four_example_snapshot ne] show ?thesis
    unfolding m by blast
qed

text \<open>
  Claim C8. For every non-empty snapshot the treemap is built from the sector name
  column as its one-level path and the flow strength column as its values, with
  \<^verbatim>\<open>branchvalues='total'\<close>. Every sector name has exactly one tile, whose value is the
  sum of the flow strengths of the rows of that name (the flow strength of its row when
  the names are pairwise different); no tile has a negative value; and the values of
  the tiles add up to the sum of the flow strengths of the snapshot.
\<close>

theorem treemap_total:
  assumes "snapshot df names xs" and "xs \<noteq> []"
  shows "\<exists>fig. generate_heatmap df = Inr fig \<and>
           path fig = [sector_col] \<and> values_col fig = strength_col \<and>
           branchvalues fig = Total \<and>
           sum_list (map snd (tiles fig)) = sum_list (map abs xs) \<and>
           distinct (map fst (tiles fig)) \<and>
           set (map fst (tiles fig)) = set names \<and>
           (\<forall>l\<in>set names. map_of (tiles fig) l =
              Some (sum_list (map snd (filter (\<lambda>r. fst r = l) (zip names (map abs xs)))))) \<and>
           list_all (\<lambda>t. 0 \<le> snd t) (tiles fig) \<and>
           (distinct names \<longrightarrow> tiles fig = zip names (map abs xs))"
proof -
  let ?rs = "zip names (map abs xs)"
  from assms(1) have len: "length names = length xs" by (simp add: snapshot_def)
  then have fst: "map fst ?rs = names" and snd: "map snd ?rs = map abs xs" by simp_all
  from snapshot_heatmap_range [OF assms] obtain fig
    where fig: "generate_heatmap df = Inr fig" "path fig = [sector_col]"
      "values_col fig = strength_col" "branchvalues fig = Total" "tiles fig = px_leaves ?rs"
    by blast
  have 1: "sum_list (map snd (tiles fig)) = sum_list (map abs xs)"
    by (simp only: fig(5) sum_px_leaves snd)
  have img: "fst ` set ?rs = set names" using fst by (metis set_map)
  have 2: "distinct (map fst (tiles fig))" "set (map fst (tiles fig)) = set names"
    using px_leaves_labels [of ?rs] img by (simp_all add: fig(5))
  have 3: "\<forall>l\<in>set names. map_of (tiles fig) l =
              Some (sum_list (map snd (filter (\<lambda>r. fst r = l) ?rs)))"
    using img by (simp add: fig(5) map_of_px_leaves)
  have "list_all (\<lambda>t. 0 \<le> snd t) ?rs"
    by (auto simp: list_all_iff dest!: set_zip_rightD)
  then have 4: "list_all (\<lambda>t. 0 \<le> snd t) (tiles fig)"
    unfolding fig(5) by (rule px_leaves_nonneg)
  have 5: "distinct names \<longrightarrow> tiles fig = ?rs"
    using fst by (simp add: fig(5) px_leaves_distinct)
  from fig(1-4) 1 2 3 4 5 show ?thesis by blast
qed

text \<open>The snapshot with the net inflows -3, -1, 2, 2: four tiles with the values 3, 1, 2,
  2, which add up to 8.\<close>

theorem treemap_total_witness:
  "\<exists>fig. generate_heatmap (snd (process_data (returns four_example) plain_decimal today)) = Inr fig \<and>
         branchvalues fig = Total \<and>
         tiles fig = [(Str ''A'', 3), (Str ''B'', 1), (Str ''C'', 2), (Str ''D'', 2)] \<and>
         sum_list (map snd (tiles fig)) = 8"
proof -
  have ne: "[-3, -1, 2, 2] \<noteq> ([] :: rat list)" by simp
  have d: "distinct [Str ''A'', Str ''B'', Str ''C'', Str ''D'']" by simp
  from treemap_total [OF four_example_snapshot ne] d show ?thesis by auto
qed


text \<open>
  Claim C6. For every non-empty snapshot the third metric of \<open>main_display\<close> shows, as
  the bullish count, the number of rows with a positive net inflow, as the bearish
  count the number of rows with a negative net inflow (a row with net inflow zero
  counts for neither: the two counts and the number of zero rows add up to the number
  of rows), and as the total the sum of the net inflows printed with two decimals: a
  multiple of 0.01 that is nearest to the sum (within 0.005 of it), and the sum itself
  when every net inflow is a multiple of 0.01.
\<close>

theorem summary_counts_and_total:
  assumes "snapshot df names xs" and "xs \<noteq> []"
  shows "\<exists>fig mi ni mo no b r t.
           main_display df = Inr [Title, Caption, PlotlyChart fig, MetricInflow mi ni,
                                  MetricOutflow mo no, MetricRatio b r t] \<and>
           b = card {i. i < length xs \<and> 0 < xs ! i} \<and>
           r = card {i. i < length xs \<and> xs ! i < 0} \<and>
           b + r + card {i. i < length xs \<and> xs ! i = 0} = length xs \<and>
           t = format_2f (sum_list xs) \<and>
           \<bar>t - sum_list xs\<bar> \<le> 1/200 \<and>
           ((\<forall>x\<in>set xs. \<exists>k::int. x = of_int k / 100) \<longrightarrow> t = sum_list xs) \<and>
           (\<exists>k::int. t = of_int k / 100) \<and>
           (\<forall>j::int. \<bar>t - sum_list xs\<bar> \<le> \<bar>of_int j / 100 - sum_list xs\<bar>)"
proof -
  from main_display_snapshot [OF assms] obtain fig k k' where md: "main_display df =
           Inr [Title, Caption, PlotlyChart fig,
                MetricInflow (Some (format_2f (Max (set xs)))) (names ! k),
                MetricOutflow (Some (format_2f (Min (set xs)))) (names ! k'),
                MetricRatio (length (filter (\<lambda>x. 0 < x) xs)) (length (filter (\<lambda>x. x < 0) xs))
                  (format_2f (sum_list xs))]" by blast
  have b: "length (filter (\<lambda>x. 0 < x) xs) = card {i. i < length xs \<and> 0 < xs ! i}"
    by (rule length_filter_conv_card)
  have r: "length (filter (\<lambda>x. x < 0) xs) = card {i. i < length xs \<and> xs ! i < 0}"
    by (rule length_filter_conv_card)
  have z: "length (filter (\<lambda>x. x = 0) xs) = card {i. i < length xs \<and> xs ! i = 0}"
    by (rule length_filter_conv_card)
  have p: "length (filter (\<lambda>x. 0 < x) xs) + length (filter (\<lambda>x. x < 0) xs)
             + card {i. i < length xs \<and> xs ! i = 0} = length xs"
    using filter_sign_partition [of xs] by (simp only: z)
  have c: "\<bar>format_2f (sum_list xs) - sum_list xs\<bar> \<le> 1/200" by (rule format_2f_close)
  have h: "(\<forall>x\<in>set xs. \<exists>k::int. x = of_int k / 100) \<longrightarrow> format_2f (sum_list xs) = sum_list xs"
  proof
    assume "\<forall>x\<in>set xs. \<exists>k::int. x = of_int k / 100"
    then obtain K :: int where "sum_list xs = of_int K / 100"
      using sum_list_hundredths by blast
    then show "format_2f (sum_list xs) = sum_list xs" by (simp only: format_2f_hundredth)
  qed
  from format_2f_nearest [of "sum_list xs"]
  have n: "\<exists>k::int. format_2f (sum_list xs) = of_int k / 100"
    "\<forall>j::int. \<bar>format_2f (sum_list xs) - sum_list xs\<bar> \<le> \<bar>of_int j / 100 - sum_list xs\<bar>"
    by blast+
  from md b r p c h n show ?thesis by blast
qed

text \<open>The snapshot with the net inflows -3, -1, 2, 2: the counts are 2 and 2, the total
  is 0.\<close>

theorem summary_counts_and_total_witness:
  "\<exists>fig mi ni mo no.
     main_display (snd (process_data (returns four_example) plain_decimal today)) =
       Inr [Title, Caption, PlotlyChart fig, MetricInflow mi ni, MetricOutflow mo no,
            MetricRatio 2 2 0]"
proof -
  have ne: "[-3, -1, 2, 2] \<noteq> ([] :: rat list)" by simp
  have "card {i. i < length [-3, -1, 2, 2 :: rat] \<and> 0 < [-3, -1, 2, 2 :: rat] ! i}
          = length (filter (\<lambda>x. 0 < x) [-3, -1, 2, 2 :: rat])"
    by (rule length_filter_conv_card [symmetric])
  then have b: "card {i. i < length [-3, -1, 2, 2 :: rat] \<and> 0 < [-3, -1, 2, 2 :: rat] ! i} = 2"
    by simp
  have "card {i. i < length [-3, -1, 2, 2 :: rat] \<and> [-3, -1, 2, 2 :: rat] ! i < 0}
          = length (filter (\<lambda>x. x < 0) [-3, -1, 2, 2 :: rat])"
    by (rule length_filter_conv_card [symmetric])
  then have r: "card {i. i < length [-3, -1, 2, 2 :: rat] \<and> [-3, -1, 2, 2 :: rat] ! i < 0} = 2"
    by simp
  have t: "format_2f (sum_list [-3, -1, 2, 2]) = 0" by code_simp
  from summary_counts_and_total [OF four_example_snapshot ne] show ?thesis
    unfolding b r t by blast
qed

text \<open>
  Claim C7. For every non-empty snapshot the first two metrics of \<open>main_display\<close> show
  the maximum and the minimum net inflow (printed with two decimals) and, below, the
  sector name of the first row that attains it: the row \<open>k\<close> holds the maximum and every
  earlier row holds a smaller value, and likewise for the minimum. The result is a
  function of the snapshot, so it is the same at every run.
\<close>

theorem summary_extremes_first_row:
  assumes "snapshot df names xs" and "xs \<noteq> []"
  shows "\<exists>fig k k' b r t.
           main_display df =
             Inr [Title, Caption, PlotlyChart fig,
                  MetricInflow (Some (format_2f (Max (set xs)))) (names ! k),
                  MetricOutflow (Some (format_2f (Min (set xs)))) (names ! k'),
                  MetricRatio b r t] \<and>
           k < length xs \<and> xs ! k = Max (set xs) \<and> (\<forall>j<k. xs ! j < xs ! k) \<and>
           k' < length xs \<and> xs ! k' = Min (set xs) \<and> (\<forall>j<k'. xs ! k' < xs ! j)"
proof -
  from main_display_snapshot [OF assms] obtain fig k k' where md: "main_display df =
           Inr [Title, Caption, PlotlyChart fig,
                MetricInflow (Some (format_2f (Max (set xs)))) (names ! k),
                MetricOutflow (Some (format_2f (Min (set xs)))) (names ! k'),
                MetricRatio (length (filter (\<lambda>x. 0 < x) xs)) (length (filter (\<lambda>x. x < 0) xs))
                  (format_2f (sum_list xs))]"
    and k: "k < length xs" "xs ! k = Max (set xs)" "\<forall>j<k. xs ! j \<noteq> Max (set xs)"
    and k': "k' < length xs" "xs ! k' = Min (set xs)" "\<forall>j<k'. xs ! j \<noteq> Min (set xs)"
    by blast
  have up: "\<forall>j<k. xs ! j < xs ! k"
  proof (intro allI impI)
    fix j assume j: "j < k"
    with k(1) have "xs ! j \<in> set xs" by simp
    then have le: "xs ! j \<le> Max (set xs)" by simp
    from k(3) j have "xs ! j \<noteq> Max (set xs)" by blast
    with le have "xs ! j < Max (set xs)" by linarith
    then show "xs ! j < xs ! k" by (simp only: k(2))
  qed
  have down: "\<forall>j<k'. xs ! k' < xs ! j"
  proof (intro allI impI)
    fix j assume j: "j < k'"
    with k'(1) have "xs ! j \<in> set xs" by simp
    then have le: "Min (set xs) \<le> xs ! j" by simp
    from k'(3) j have "xs ! j \<noteq> Min (set xs)" by blast
    with le have "Min (set xs) < xs ! j" by linarith
    then show "xs ! k' < xs ! j" by (simp only: k'(2))
  qed
  from md k(1,2) up k'(1,2) down show ?thesis by blast
qed

text \<open>The snapshot of the sectors A and B, both with the net inflow 5: both metrics name
  A, the first row.\<close>

theorem summary_extremes_first_row_witness:
  "\<exists>fig v v' b r t.
     main_display (snd (process_data (returns tied_example) plain_decimal today)) =
       Inr [Title, Caption, PlotlyChart fig, MetricInflow v (Str ''A''),
            MetricOutflow v' (Str ''A''), MetricRatio b r t]"
proof -
  have ne: "[5, 5] \<noteq> ([] :: rat list)" by simp
  from summary_extremes_first_row [OF tied_example_snapshot ne] obtain fig k k' b r t
    where md: "main_display (snd (process_data (returns tied_example) plain_decimal today)) =
             Inr [Title, Caption, PlotlyChart fig,
                  MetricInflow (Some (format_2f (Max (set [5, 5])))) ([Str ''A'', Str ''B''] ! k),
                  MetricOutflow (Some (format_2f (Min (set [5, 5])))) ([Str ''A'', Str ''B''] ! k'),
                  MetricRatio b r t]"
      and k: "k < length [5, 5 :: rat]" "\<forall>j<k. [5, 5 :: rat] ! j < [5, 5] ! k"
      and k': "k' < length [5, 5 :: rat]" "\<forall>j<k'. [5, 5 :: rat] ! k' < [5, 5] ! j"
    by blast
  have "k = 0"
  proof (rule ccontr)
    assume "k \<noteq> 0"
    with k(1) have "k = 1" by simp
    with k(2) show False by auto
  qed
  moreover have "k' = 0"
  proof (rule ccontr)
    assume "k' \<noteq> 0"
    with k'(1) have "k' = 1" by simp
    with k'(2) show False by auto
  qed
  ultimately show ?thesis using md by simp
qed

end
